theory Spec2Isabelle
  imports Complex_Main
begin

section \<open>Strings and numbers of the source language\<close>

text \<open>
  The program is TypeScript. Its strings are modelled as lists of 8-bit code units (the
  Latin-1 range of JavaScript's UTF-16 strings), its integers as \<open>int\<close>, its
  non-integer numbers (scores, ratios) as exact \<open>real\<close>s. An optional parameter or a
  nullable column is an \<open>option\<close>. The clock (\<open>Date.now()\<close>) and the random bytes
  (\<open>crypto.randomBytes\<close>) are inputs of the operations that read them; the hash
  function (\<open>crypto.createHash('md5')\<close>) and the full-text index of SQLite (FTS5) are
  parameters.
\<close>

definition upper_ascii :: string where
  "upper_ascii = ''ABCDEFGHIJKLMNOPQRSTUVWXYZ''"

definition lower_ascii :: string where
  "lower_ascii = ''abcdefghijklmnopqrstuvwxyz''"

definition digit_chars :: string where
  "digit_chars = ''0123456789''"

text \<open>The regular-expression class \<open>\w\<close>: \<open>[A-Za-z0-9_]\<close>.\<close>

definition is_word :: "char \<Rightarrow> bool" where
  "is_word c = (c \<in> set (lower_ascii @ upper_ascii @ digit_chars @ ''_''))"

text \<open>The class \<open>\s\<close> (and what \<open>trim\<close> strips), within the code units modelled.\<close>

definition is_space :: "char \<Rightarrow> bool" where
  "is_space c = (of_char c \<in> {9, 10, 11, 12, 13, 32, 160 :: nat})"

definition toLowerChar :: "char \<Rightarrow> char" where
  "toLowerChar c =
     (case map_of (zip upper_ascii lower_ascii) c of
        Some l \<Rightarrow> l
      | None \<Rightarrow>
          (let n = (of_char c :: nat)
           in if 192 \<le> n \<and> n \<le> 222 \<and> n \<noteq> 215 then char_of (n + 32) else c))"

definition toLowerCase :: "string \<Rightarrow> string" where
  "toLowerCase s = map toLowerChar s"

definition trim :: "string \<Rightarrow> string" where
  "trim s = rev (dropWhile is_space (rev (dropWhile is_space s)))"

text \<open>\<open>xs.join(sep)\<close>.\<close>

fun join :: "string \<Rightarrow> string list \<Rightarrow> string" where
  "join sep [] = []"
| "join sep [x] = x"
| "join sep (x # y # ys) = x @ sep @ join sep (y # ys)"

text \<open>
  \<open>s.split(/\s+/)\<close>: the pieces between maximal runs of white space, the empty pieces
  at both ends included (\<open>''''.split(/\s+/)\<close> is \<open>['''']\<close>).
\<close>

fun splitWs :: "bool \<Rightarrow> string \<Rightarrow> string \<Rightarrow> string list" where
  "splitWs inRun cur [] = [cur]"
| "splitWs inRun cur (c # cs) =
     (if is_space c then (if inRun then splitWs True cur cs else cur # splitWs True [] cs)
      else splitWs False (cur @ [c]) cs)"

definition split_ws :: "string \<Rightarrow> string list" where
  "split_ws s = splitWs False [] s"

text \<open>\<open>s.replace(/[^\w\s]/g, ' ')\<close> and \<open>s.replace(/\s+/g, ' ')\<close>.\<close>

definition replace_special :: "string \<Rightarrow> string" where
  "replace_special s = map (\<lambda>c. if is_word c \<or> is_space c then c else CHR '' '') s"

fun collapseWs :: "bool \<Rightarrow> string \<Rightarrow> string" where
  "collapseWs inRun [] = []"
| "collapseWs inRun (c # cs) =
     (if is_space c then (if inRun then collapseWs True cs else CHR '' '' # collapseWs True cs)
      else c # collapseWs False cs)"

definition collapse_ws :: "string \<Rightarrow> string" where
  "collapse_ws s = collapseWs False s"

text \<open>\<open>s.match(/[^\w\s]/)\<close> as a truth value.\<close>

definition has_special :: "string \<Rightarrow> bool" where
  "has_special s = (\<exists>c \<in> set s. \<not> is_word c \<and> \<not> is_space c)"

text \<open>\<open>s.includes(t)\<close>, \<open>s.startsWith(t)\<close>, \<open>s.endsWith(t)\<close>.\<close>

fun startsWith :: "string \<Rightarrow> string \<Rightarrow> bool" where
  "startsWith s [] = True"
| "startsWith [] (t # ts) = False"
| "startsWith (c # cs) (t # ts) = (c = t \<and> startsWith cs ts)"

fun includes_str :: "string \<Rightarrow> string \<Rightarrow> bool" where
  "includes_str [] t = (t = [])"
| "includes_str (c # cs) t = (startsWith (c # cs) t \<or> includes_str cs t)"

definition endsWith :: "string \<Rightarrow> string \<Rightarrow> bool" where
  "endsWith s t = startsWith (rev s) (rev t)"

text \<open>The default order of \<open>Array.prototype.sort\<close> on strings: by code units.\<close>

fun str_lt :: "string \<Rightarrow> string \<Rightarrow> bool" where
  "str_lt [] [] = False"
| "str_lt [] (y # ys) = True"
| "str_lt (x # xs) [] = False"
| "str_lt (x # xs) (y # ys) =
     ((of_char x :: nat) < of_char y \<or> (x = y \<and> str_lt xs ys))"

text \<open>
  A stable sort by a strict "comes before" relation: JavaScript's \<open>sort\<close> is stable, and
  so is the order in which the rows of an \<open>ORDER BY\<close> are modelled.
\<close>

fun insert_by :: "('a \<Rightarrow> 'a \<Rightarrow> bool) \<Rightarrow> 'a \<Rightarrow> 'a list \<Rightarrow> 'a list" where
  "insert_by lt x [] = [x]"
| "insert_by lt x (y # ys) = (if lt y x then y # insert_by lt x ys else x # y # ys)"

fun sort_by :: "('a \<Rightarrow> 'a \<Rightarrow> bool) \<Rightarrow> 'a list \<Rightarrow> 'a list" where
  "sort_by lt [] = []"
| "sort_by lt (x # xs) = insert_by lt x (sort_by lt xs)"

text \<open>\<open>LIMIT n\<close> of SQLite: a negative limit is no limit.\<close>

definition sql_limit :: "int \<Rightarrow> 'a list \<Rightarrow> 'a list" where
  "sql_limit n xs = (if n < 0 then xs else take (nat n) xs)"

text \<open>The decimal digits of a number, for the identifiers built from the clock.\<close>

fun show_nat :: "nat \<Rightarrow> string" where
  "show_nat n =
     (if n < 10 then [digit_chars ! n] else show_nat (n div 10) @ [digit_chars ! (n mod 10)])"

definition show_int :: "int \<Rightarrow> string" where
  "show_int i = (if i < 0 then ''-'' @ show_nat (nat (- i)) else show_nat (nat i))"

section \<open>Storage Engine: \<open>MemoryDatabase\<close>\<close>

datatype db_error = SqliteConstraint | SqliteError | NotInitialized

record memory =
  m_id :: string
  m_project_id :: string
  m_summary :: string
  m_text :: string
  m_tags :: "string list"
  m_paths :: "string list"
  m_importance :: int
  m_created_at :: int
  m_updated_at :: int
  m_ttl :: "int option"
  m_expires_at :: "int option"

text \<open>A row of the table \<open>memories\<close>: the columns of a \<open>Memory\<close> and \<open>dedupe_hash\<close>.\<close>

record memory_row = memory +
  m_dedupe_hash :: string

definition rowToMemory :: "memory_row \<Rightarrow> memory" where
  "rowToMemory row =
     \<lparr>m_id = m_id row, m_project_id = m_project_id row, m_summary = m_summary row,
      m_text = m_text row, m_tags = m_tags row, m_paths = m_paths row,
      m_importance = m_importance row, m_created_at = m_created_at row,
      m_updated_at = m_updated_at row, m_ttl = m_ttl row, m_expires_at = m_expires_at row\<rparr>"

record save_params =
  sp_summary :: string
  sp_text :: string
  sp_tags :: "string list option"
  sp_paths :: "string list option"
  sp_importance :: "int option"
  sp_ttl :: "int option"

datatype save_result = UpdatedExisting string | Inserted memory

definition generateId :: "int \<Rightarrow> string \<Rightarrow> string" where
  "generateId now rnd = ''mem_'' @ show_int now @ ''_'' @ rnd"

definition computeDedupeHash :: "(string \<Rightarrow> string) \<Rightarrow> string \<Rightarrow> string list \<Rightarrow> string" where
  "computeDedupeHash md5 summary paths =
     md5 (trim (toLowerCase summary) @ ''|'' @ join ''|'' (sort_by str_lt paths))"

text \<open>The column constraint \<open>CHECK(importance >= 1 AND importance <= 5)\<close>.\<close>

definition importance_ok :: "int \<Rightarrow> bool" where
  "importance_ok i = (1 \<le> i \<and> i \<le> 5)"

text \<open>\<open>x || d\<close> on an optional number: \<open>undefined\<close> and \<open>0\<close> give the default.\<close>

definition or_default :: "int option \<Rightarrow> int \<Rightarrow> int" where
  "or_default x d = (case x of None \<Rightarrow> d | Some v \<Rightarrow> if v = 0 then d else v)"

definition update_row :: "int \<Rightarrow> save_params \<Rightarrow> memory_row \<Rightarrow> memory_row" where
  "update_row now p row =
     row\<lparr>m_updated_at := now,
         m_summary := sp_summary p,
         m_text := sp_text p,
         m_tags := (case sp_tags p of None \<Rightarrow> m_tags row | Some t \<Rightarrow> t),
         m_paths := (case sp_paths p of None \<Rightarrow> m_paths row | Some ps \<Rightarrow> ps),
         m_importance := (case sp_importance p of None \<Rightarrow> m_importance row | Some i \<Rightarrow> i)\<rparr>"

text \<open>
  \<open>update\<close>: the statement \<open>UPDATE memories SET ... WHERE id = ? AND project_id = ?\<close>;
  it fails as a whole when a row it changes would break the \<open>CHECK\<close>.
\<close>

definition update :: "string \<Rightarrow> int \<Rightarrow> memory_row list \<Rightarrow> string \<Rightarrow> save_params
    \<Rightarrow> db_error + (memory_row list \<times> save_result)" where
  "update projectId now db ident p =
     (let hit = (\<lambda>row. m_id row = ident \<and> m_project_id row = projectId)
      in if \<exists>row \<in> set db. hit row \<and> \<not> importance_ok (m_importance (update_row now p row))
         then Inl SqliteConstraint
         else Inr (map (\<lambda>row. if hit row then update_row now p row else row) db,
                   UpdatedExisting ident))"

text \<open>
  \<open>save\<close>. \<open>computeDedupeHash\<close> sorts the array of paths it is given in place, so the
  paths stored afterwards are the sorted ones. The object returned after an insertion
  carries \<open>params.ttl\<close> as given and \<open>expires_at || undefined\<close>, the row
  \<open>params.ttl || null\<close> and \<open>expires_at\<close>.
\<close>

definition save :: "(string \<Rightarrow> string) \<Rightarrow> string \<Rightarrow> int \<Rightarrow> string \<Rightarrow> memory_row list
    \<Rightarrow> save_params \<Rightarrow> db_error + (memory_row list \<times> save_result)" where
  "save md5 projectId now rnd db params =
     (let ident = generateId now rnd;
          dedupeHash = computeDedupeHash md5 (sp_summary params)
                         (case sp_paths params of None \<Rightarrow> [] | Some ps \<Rightarrow> ps);
          p = params\<lparr>sp_paths := map_option (sort_by str_lt) (sp_paths params)\<rparr>;
          existing = find (\<lambda>row. m_dedupe_hash row = dedupeHash \<and> m_project_id row = projectId) db
      in case existing of
           Some row \<Rightarrow> update projectId now db (m_id row) p
         | None \<Rightarrow>
             (let expires_at = (case sp_ttl p of
                                  None \<Rightarrow> None
                                | Some t \<Rightarrow> if t = 0 then None else Some (now + t * 1000));
                  mem = \<lparr>m_id = ident, m_project_id = projectId, m_summary = sp_summary p,
                         m_text = sp_text p,
                         m_tags = (case sp_tags p of None \<Rightarrow> [] | Some t \<Rightarrow> t),
                         m_paths = (case sp_paths p of None \<Rightarrow> [] | Some ps \<Rightarrow> ps),
                         m_importance = or_default (sp_importance p) 3,
                         m_created_at = now, m_updated_at = now,
                         m_ttl = (case sp_ttl p of
                                    None \<Rightarrow> None
                                  | Some t \<Rightarrow> if t = 0 then None else Some t),
                         m_expires_at = expires_at\<rparr>
              in if ident \<in> set (map m_id db) \<or> \<not> importance_ok (m_importance mem)
                 then Inl SqliteConstraint
                 else Inr (db @ [memory.extend mem \<lparr>m_dedupe_hash = dedupeHash\<rparr>],
                           Inserted (mem\<lparr>m_ttl := sp_ttl p,
                                         m_expires_at := (if expires_at = Some 0 then None
                                                          else expires_at)\<rparr>))))"

text \<open>
  Two notions used to state the properties of \<open>save\<close>: the fingerprint \<open>save\<close> computes
  for its parameters, and the rows of a project that carry a given fingerprint.
\<close>

definition fingerprint :: "(string \<Rightarrow> string) \<Rightarrow> save_params \<Rightarrow> string" where
  "fingerprint md5 p =
     computeDedupeHash md5 (sp_summary p) (case sp_paths p of None \<Rightarrow> [] | Some ps \<Rightarrow> ps)"

definition with_fingerprint :: "string \<Rightarrow> string \<Rightarrow> memory_row list \<Rightarrow> memory_row list" where
  "with_fingerprint projectId h db =
     filter (\<lambda>row. m_dedupe_hash row = h \<and> m_project_id row = projectId) db"

subsection \<open>Searching\<close>

record search_params =
  s_q :: string
  s_k :: "int option"
  s_require_path_match :: bool
  s_tags :: "string list option"
  s_include_expired :: bool

record search_result =
  sr_memory :: memory
  sr_score :: real
  sr_snippet :: string

text \<open>
  The full-text index \<open>mem_fts\<close> is SQLite's. For a \<open>MATCH\<close> expression it either
  rejects the statement (a syntax error, raised by \<open>prepare\<close> or \<open>all\<close>) or tells, for
  each row, whether it matches and with which \<open>bm25\<close> score and snippet.
\<close>

type_synonym fts_index = "string \<Rightarrow> db_error + (memory_row \<Rightarrow> (real \<times> string) option)"

text \<open>\<open>s.replace(/["]/g, '""')\<close>.\<close>

definition double_quotes :: "string \<Rightarrow> string" where
  "double_quotes s = concat (map (\<lambda>c. if c = CHR 0x22 then [CHR 0x22, CHR 0x22] else [c]) s)"

definition escapeQuery :: "string \<Rightarrow> string" where
  "escapeQuery query =
     (let cleaned = trim (collapse_ws (replace_special (double_quotes query)))
      in if cleaned \<noteq> query \<or> includes_str cleaned '' ''
         then [CHR 0x22] @ cleaned @ [CHR 0x22]
         else cleaned)"

text \<open>
  The operator \<open>LIKE\<close> of SQLite: \<open>%\<close> matches any run of characters, \<open>_\<close> any one
  character, and the ASCII letters match without regard to case.
\<close>

definition fold_ascii :: "char \<Rightarrow> char" where
  "fold_ascii c = (case map_of (zip upper_ascii lower_ascii) c of Some l \<Rightarrow> l | None \<Rightarrow> c)"

fun like_match :: "string \<Rightarrow> string \<Rightarrow> bool" where
  "like_match [] s = (s = [])"
| "like_match (p # ps) [] = (p = CHR ''%'' \<and> like_match ps [])"
| "like_match (p # ps) (c # cs) =
     (if p = CHR ''%'' then like_match ps (c # cs) \<or> like_match (p # ps) cs
      else (p = CHR ''_'' \<or> fold_ascii p = fold_ascii c) \<and> like_match ps cs)"

definition not_expired :: "int \<Rightarrow> memory_row \<Rightarrow> bool" where
  "not_expired now row = (case m_expires_at row of None \<Rightarrow> True | Some e \<Rightarrow> e > now)"

text \<open>\<open>ORDER BY fts_score DESC, m.importance DESC, m.created_at DESC\<close>.\<close>

definition search_order :: "memory_row \<times> real \<times> string \<Rightarrow> memory_row \<times> real \<times> string \<Rightarrow> bool" where
  "search_order a b =
     (let (ra, sa, _) = a; (rb, sb, _) = b
      in sa > sb \<or> (sa = sb \<and> (m_importance ra > m_importance rb
           \<or> (m_importance ra = m_importance rb \<and> m_created_at ra > m_created_at rb))))"

definition executeSearch :: "fts_index \<Rightarrow> string \<Rightarrow> int \<Rightarrow> memory_row list \<Rightarrow> search_params
    \<Rightarrow> db_error + search_result list" where
  "executeSearch fts projectId now db params =
     (let limit = or_default (s_k params) 10;
          pathTerms = filter (\<lambda>term. includes_str term ''/'' \<or> includes_str term [CHR 0x5C]
                                       \<or> includes_str term ''.'')
                        (split_ws (s_q params))
      in if s_require_path_match params \<and> pathTerms = [] then Inr []
         else
           (case fts (escapeQuery (s_q params)) of
              Inl e \<Rightarrow> Inl e
            | Inr hit \<Rightarrow>
                (let selected =
                       filter (\<lambda>(row, _).
                           m_project_id row = projectId
                           \<and> (s_include_expired params \<or> not_expired now row)
                           \<and> (case s_tags params of
                                None \<Rightarrow> True
                              | Some ts \<Rightarrow> ts = [] \<or> (\<exists>v \<in> set (m_tags row). v \<in> set ts))
                           \<and> (\<not> s_require_path_match params
                                \<or> (\<exists>term \<in> set pathTerms. \<exists>v \<in> set (m_paths row).
                                      like_match (''%'' @ term @ ''%'') v)))
                         (concat (map (\<lambda>row. case hit row of
                                                 None \<Rightarrow> []
                                               | Some (score, snip) \<Rightarrow> [(row, score, snip)]) db));
                     found = sql_limit limit (sort_by search_order selected)
                 in Inr (map (\<lambda>(row, fts_score, snip).
                               \<lparr>sr_memory = rowToMemory row, sr_score = - fts_score,
                                sr_snippet = snip\<rparr>) found))))"

text \<open>
  One stage of the cascade, \<open>try { const results = ...; if (results.length > 0) return
  results; } catch (error) { ... }\<close>: the results the stage returns, or \<open>None\<close> when
  the cascade goes on (the stage found nothing, or threw and the exception was caught).
\<close>

definition try_stage :: "db_error + search_result list \<Rightarrow> search_result list option" where
  "try_stage r = (case r of Inl e \<Rightarrow> None | Inr rs \<Rightarrow> if rs \<noteq> [] then Some rs else None)"

definition fallbackQuery :: "string \<Rightarrow> string" where
  "fallbackQuery query = trim (collapse_ws (replace_special query))"

definition query_words :: "string \<Rightarrow> string list" where
  "query_words query = filter (\<lambda>word. length word > 2) (split_ws query)"

definition search :: "fts_index \<Rightarrow> string \<Rightarrow> int \<Rightarrow> memory_row list \<Rightarrow> search_params
    \<Rightarrow> db_error + search_result list" where
  "search fts projectId now db params =
     (case try_stage (executeSearch fts projectId now db params) of
        Some rs \<Rightarrow> Inr rs
      | None \<Rightarrow>
     (case (if has_special (s_q params)
            then try_stage (executeSearch fts projectId now db
                              (params\<lparr>s_q := fallbackQuery (s_q params)\<rparr>))
            else None) of
        Some rs \<Rightarrow> Inr rs
      | None \<Rightarrow>
     (let words = query_words (s_q params)
      in case (if length words > 1
               then try_stage (executeSearch fts projectId now db
                                 (params\<lparr>s_q := join '' OR '' words\<rparr>))
               else None) of
        Some rs \<Rightarrow> Inr rs
      | None \<Rightarrow>
          (if length words > 0
           then (case executeSearch fts projectId now db (params\<lparr>s_q := hd words\<rparr>) of
                   Inr rs \<Rightarrow> Inr rs
                 | Inl e \<Rightarrow> Inr [])
           else Inr []))))"

text \<open>
  The result of \<open>searchWithDebug\<close>; \<open>search_time_ms\<close>, a difference of two readings of
  the clock, is left out.
\<close>

record enhanced_search_result =
  dbg_results :: "search_result list"
  dbg_original_query :: string
  dbg_queries_tried :: "string list"
  dbg_fallback_used :: "string option"
  dbg_total_memories_scanned :: nat

definition getTotalMemoryCount :: "string \<Rightarrow> memory_row list \<Rightarrow> nat" where
  "getTotalMemoryCount projectId db = length (filter (\<lambda>row. m_project_id row = projectId) db)"

definition searchWithDebug :: "fts_index \<Rightarrow> string \<Rightarrow> int \<Rightarrow> memory_row list \<Rightarrow> search_params
    \<Rightarrow> db_error + enhanced_search_result" where
  "searchWithDebug fts projectId now db params =
     (let report = (\<lambda>rs tried used.
            Inr \<lparr>dbg_results = rs, dbg_original_query = s_q params, dbg_queries_tried = tried,
                 dbg_fallback_used = used,
                 dbg_total_memories_scanned = getTotalMemoryCount projectId db\<rparr>);
          tried1 = [s_q params]
      in case try_stage (executeSearch fts projectId now db params) of
        Some rs \<Rightarrow> report rs tried1 None
      | None \<Rightarrow>
     (let tried2 = (if has_special (s_q params) then tried1 @ [fallbackQuery (s_q params)] else tried1)
      in case (if has_special (s_q params)
               then try_stage (executeSearch fts projectId now db
                                 (params\<lparr>s_q := fallbackQuery (s_q params)\<rparr>))
               else None) of
        Some rs \<Rightarrow> report rs tried2 (Some ''removed_special_chars'')
      | None \<Rightarrow>
     (let words = query_words (s_q params);
          tried3 = (if length words > 1 then tried2 @ [join '' OR '' words] else tried2)
      in case (if length words > 1
               then try_stage (executeSearch fts projectId now db
                                 (params\<lparr>s_q := join '' OR '' words\<rparr>))
               else None) of
        Some rs \<Rightarrow> report rs tried3 (Some ''or_search'')
      | None \<Rightarrow>
          (if length words > 0
           then (case executeSearch fts projectId now db (params\<lparr>s_q := hd words\<rparr>) of
                   Inr rs \<Rightarrow> report rs (tried3 @ [hd words]) (Some ''broad_search'')
                 | Inl e \<Rightarrow> report [] (tried3 @ [hd words]) (Some ''all_failed''))
           else report [] tried3 (Some ''all_failed'')))))"

subsection \<open>Reading by recency and by id\<close>

record recent_params =
  rp_k :: "int option"
  rp_path_prefix :: "string option"
  rp_include_expired :: bool

definition getRecent :: "string \<Rightarrow> int \<Rightarrow> memory_row list \<Rightarrow> recent_params \<Rightarrow> memory list" where
  "getRecent projectId now db params =
     (let limit = or_default (rp_k params) 10;
          selected =
            filter (\<lambda>row.
                m_project_id row = projectId
                \<and> (rp_include_expired params \<or> not_expired now row)
                \<and> (case rp_path_prefix params of
                     None \<Rightarrow> True
                   | Some prefix \<Rightarrow> prefix = [] \<or> (\<exists>v \<in> set (m_paths row). like_match (prefix @ ''%'') v)))
              db
      in map rowToMemory
           (sql_limit limit (sort_by (\<lambda>a b. m_created_at a > m_created_at b) selected)))"

definition get :: "string \<Rightarrow> memory_row list \<Rightarrow> string \<Rightarrow> memory option" where
  "get projectId db ident =
     map_option rowToMemory (find (\<lambda>row. m_id row = ident \<and> m_project_id row = projectId) db)"

text \<open>
  \<open>getMultiple\<close> returns an object from ids to \<open>Memory | null\<close>: a map whose values are
  \<open>None\<close> for \<open>null\<close>.
\<close>

definition getMultiple :: "string \<Rightarrow> memory_row list \<Rightarrow> string list \<Rightarrow> (string \<rightharpoonup> memory option)" where
  "getMultiple projectId db ids =
     (if ids = [] then Map.empty
      else
        (let rows = filter (\<lambda>row. m_id row \<in> set ids \<and> m_project_id row = projectId) db;
             initial = fold (\<lambda>ident result. result(ident \<mapsto> None)) ids Map.empty
         in fold (\<lambda>row result. result(m_id row \<mapsto> Some (rowToMemory row))) rows initial))"

text \<open>
  Notions used to state the properties of the cascade: the queries of the stages that
  \<open>search\<close> runs for a query when no stage finds anything, in order (the literal query;
  the query without special characters, when it has one; the words joined by \<open>OR\<close>,
  when there are two or more; the first word, when there is one), and a full-text index
  that answers "no row matches" where the given one fails.
\<close>

definition stage_queries :: "string \<Rightarrow> string list" where
  "stage_queries query =
     [query]
     @ (if has_special query then [fallbackQuery query] else [])
     @ (if length (query_words query) > 1 then [join '' OR '' (query_words query)] else [])
     @ (if length (query_words query) > 0 then [hd (query_words query)] else [])"

definition quiet :: "fts_index \<Rightarrow> fts_index" where
  "quiet fts = (\<lambda>expr. case fts expr of Inl e \<Rightarrow> Inr (\<lambda>row. None) | Inr hit \<Rightarrow> Inr hit)"


section \<open>Concept Graph Store\<close>

subsection \<open>The enhanced store: \<open>ConceptStoreEnhanced\<close>\<close>

text \<open>
  A row of the table \<open>concepts\<close> of the enhanced store. The \<open>Concept\<close> objects the store
  returns carry the columns of a row but \<open>source\<close> and \<open>confidence\<close>; the model returns
  rows.
\<close>

record concept =
  c_id :: string
  c_title :: string
  c_body :: string
  c_tags :: "string list"
  c_importance :: int
  c_created_at :: int
  c_updated_at :: int

record concept_row = concept +
  c_usage_count :: int
  c_last_used :: "int option"
  c_source :: string
  c_confidence :: real

record relationship =
  r_concept_id :: string
  r_related_id :: string
  r_relationship_type :: string
  r_strength :: real

record allow_entry =
  a_project_id :: string
  a_concept_id :: string
  a_added_at :: int
  a_auto_suggested :: bool
  a_accepted :: bool

record concept_db =
  concepts :: "concept_row list"
  concept_relationships :: "relationship list"
  project_allowlists :: "allow_entry list"

record concept_save_params =
  cp_title :: string
  cp_body :: string
  cp_tags :: "string list option"
  cp_importance :: "int option"
  cp_source :: "string option"
  cp_relatedTo :: "string list option"

text \<open>\<open>s.replace(/[^a-z0-9]+/g, '-')\<close> and \<open>s.replace(/^-|-$/g, '')\<close>.\<close>

fun slug_runs :: "bool \<Rightarrow> string \<Rightarrow> string" where
  "slug_runs inRun [] = []"
| "slug_runs inRun (c # cs) =
     (if c \<in> set (lower_ascii @ digit_chars) then c # slug_runs False cs
      else if inRun then slug_runs True cs
      else CHR ''-'' # slug_runs True cs)"

definition strip_dashes :: "string \<Rightarrow> string" where
  "strip_dashes s =
     (let s1 = (case s of [] \<Rightarrow> [] | c # cs \<Rightarrow> if c = CHR ''-'' then cs else s)
      in if s1 \<noteq> [] \<and> last s1 = CHR ''-'' then butlast s1 else s1)"

text \<open>\<open>generateConceptId\<close>; \<open>rnd\<close> is the hexadecimal text of three random bytes.\<close>

definition generateConceptId :: "string \<Rightarrow> string \<Rightarrow> string" where
  "generateConceptId title rnd =
     take 50 (strip_dashes (slug_runs False (toLowerCase title))) @ ''-'' @ rnd"

text \<open>
  \<open>INSERT OR REPLACE INTO concept_relationships\<close>, once per related id, always with
  strength \<open>0.5\<close>. The primary key is the pair of ids. Where the connection enforces
  foreign keys (\<open>fk\<close>), both ids must be ids of stored concepts.
\<close>

fun addRelationships :: "bool \<Rightarrow> concept_db \<Rightarrow> string \<Rightarrow> string list \<Rightarrow> string
    \<Rightarrow> db_error + concept_db" where
  "addRelationships fk db conceptId [] type = Inr db"
| "addRelationships fk db conceptId (relatedId # relatedIds) type =
     (if fk \<and> (conceptId \<notin> set (map c_id (concepts db))
               \<or> relatedId \<notin> set (map c_id (concepts db)))
      then Inl SqliteConstraint
      else addRelationships fk
             (db\<lparr>concept_relationships :=
                    filter (\<lambda>r. \<not> (r_concept_id r = conceptId \<and> r_related_id r = relatedId))
                      (concept_relationships db)
                    @ [\<lparr>r_concept_id = conceptId, r_related_id = relatedId,
                        r_relationship_type = type, r_strength = 0.5\<rparr>]\<rparr>)
             conceptId relatedIds type)"

text \<open>\<open>concept.tags.filter(t => otherTags.includes(t)).length\<close> and the ratio tested.\<close>

definition tag_overlap :: "string list \<Rightarrow> string list \<Rightarrow> nat" where
  "tag_overlap conceptTags otherTags = length (filter (\<lambda>t. t \<in> set otherTags) conceptTags)"

definition overlap_ratio :: "string list \<Rightarrow> string list \<Rightarrow> real" where
  "overlap_ratio conceptTags otherTags =
     real (tag_overlap conceptTags otherTags)
       / real (max (length conceptTags) (length otherTags))"

text \<open>The loop of \<open>autoDiscoverRelated\<close> over the rows selected.\<close>

fun discover_loop :: "bool \<Rightarrow> concept_db \<Rightarrow> string \<Rightarrow> string list \<Rightarrow> concept_row list
    \<Rightarrow> db_error + concept_db" where
  "discover_loop fk db conceptId conceptTags [] = Inr db"
| "discover_loop fk db conceptId conceptTags (other # others) =
     (if tag_overlap conceptTags (c_tags other) > 0
         \<and> overlap_ratio conceptTags (c_tags other) > 0.3
      then (case addRelationships fk db conceptId [c_id other] ''related'' of
              Inl e \<Rightarrow> Inl e
            | Inr db' \<Rightarrow> discover_loop fk db' conceptId conceptTags others)
      else discover_loop fk db conceptId conceptTags others)"

text \<open>
  \<open>autoDiscoverRelated\<close>: \<open>SELECT id, title, tags FROM concepts WHERE id != ? LIMIT 20\<close>,
  the rows in the order of the table.
\<close>

definition autoDiscoverRelated :: "bool \<Rightarrow> concept_db \<Rightarrow> string \<Rightarrow> string list
    \<Rightarrow> db_error + concept_db" where
  "autoDiscoverRelated fk db conceptId conceptTags =
     discover_loop fk db conceptId conceptTags
       (take 20 (filter (\<lambda>row. c_id row \<noteq> conceptId) (concepts db)))"

text \<open>
  \<open>INSERT OR REPLACE INTO concepts\<close>: a stored row with the same id is deleted first, and
  with it, where foreign keys are enforced, the relationships and allowlist entries that
  refer to it (\<open>ON DELETE CASCADE\<close>). The columns the statement does not name take their
  defaults: \<open>last_used\<close> is \<open>NULL\<close>, \<open>confidence\<close> is \<open>1.0\<close>.
\<close>

definition replace_concept :: "bool \<Rightarrow> concept_db \<Rightarrow> concept_row \<Rightarrow> db_error + concept_db" where
  "replace_concept fk db row =
     (if \<not> importance_ok (c_importance row) then Inl SqliteConstraint
      else
        (let existed = c_id row \<in> set (map c_id (concepts db));
             cascade = fk \<and> existed
         in Inr (db\<lparr>concepts := filter (\<lambda>r. c_id r \<noteq> c_id row) (concepts db) @ [row],
                    concept_relationships :=
                      (if cascade
                       then filter (\<lambda>r. r_concept_id r \<noteq> c_id row \<and> r_related_id r \<noteq> c_id row)
                              (concept_relationships db)
                       else concept_relationships db),
                    project_allowlists :=
                      (if cascade
                       then filter (\<lambda>a. a_concept_id a \<noteq> c_id row) (project_allowlists db)
                       else project_allowlists db)\<rparr>)))"

text \<open>
  The row \<open>save\<close> writes: the \<open>Concept\<close> object it builds, \<open>usage_count\<close> 0, the
  source given or \<open>manual\<close>, and the defaults of the columns it does not name.
\<close>

definition new_concept :: "int \<Rightarrow> string \<Rightarrow> concept_save_params \<Rightarrow> concept_row" where
  "new_concept now ident params =
     \<lparr>c_id = ident, c_title = cp_title params, c_body = cp_body params,
      c_tags = (case cp_tags params of None \<Rightarrow> [] | Some t \<Rightarrow> t),
      c_importance = or_default (cp_importance params) 3,
      c_created_at = now, c_updated_at = now,
      c_usage_count = 0, c_last_used = None,
      c_source = (case cp_source params of
                    None \<Rightarrow> ''manual''
                  | Some s \<Rightarrow> if s = [] then ''manual'' else s),
      c_confidence = 1\<rparr>"

text \<open>
  \<open>save\<close> of the enhanced store. A failing statement ends the call with the exception;
  the writes made before it are not part of the model's result.
\<close>

definition enhanced_save :: "bool \<Rightarrow> int \<Rightarrow> string \<Rightarrow> concept_db \<Rightarrow> concept_save_params
    \<Rightarrow> db_error + (concept_db \<times> concept_row)" where
  "enhanced_save fk now rnd db params =
     (let ident = generateConceptId (cp_title params) rnd;
          row = new_concept now ident params
      in case replace_concept fk db row of
           Inl e \<Rightarrow> Inl e
         | Inr db1 \<Rightarrow>
             (case (case cp_relatedTo params of
                      None \<Rightarrow> Inr db1
                    | Some ids \<Rightarrow> addRelationships fk db1 ident ids ''related'') of
                Inl e \<Rightarrow> Inl e
              | Inr db2 \<Rightarrow>
                  (case autoDiscoverRelated fk db2 ident (c_tags row) of
                     Inl e \<Rightarrow> Inl e
                   | Inr db3 \<Rightarrow> Inr (db3, row))))"

definition trackUsage :: "int \<Rightarrow> string \<Rightarrow> concept_db \<Rightarrow> concept_db" where
  "trackUsage now conceptId db =
     db\<lparr>concepts := map (\<lambda>row. if c_id row = conceptId
                                then row\<lparr>c_usage_count := c_usage_count row + 1,
                                        c_last_used := Some now\<rparr>
                                else row) (concepts db)\<rparr>"

text \<open>
  A notion used to state the properties of the relationship graph: a \<open>related\<close> edge
  from one concept to another is stored.
\<close>

definition related_edge :: "concept_db \<Rightarrow> string \<Rightarrow> string \<Rightarrow> bool" where
  "related_edge db conceptId relatedId =
     (\<exists>r \<in> set (concept_relationships db).
        r_concept_id r = conceptId \<and> r_related_id r = relatedId
        \<and> r_relationship_type r = ''related'')"

text \<open>Concrete rows, for the examples at which the properties are evaluated.\<close>

definition sample_concept :: "string \<Rightarrow> concept_row" where
  "sample_concept ident =
     \<lparr>c_id = ident, c_title = ident, c_body = ''body'', c_tags = [''auth''],
      c_importance = 3, c_created_at = 1, c_updated_at = 1, c_usage_count = 0,
      c_last_used = None, c_source = ''manual'', c_confidence = 1\<rparr>"

definition sample_edge :: "string \<Rightarrow> string \<Rightarrow> relationship" where
  "sample_edge conceptId relatedId =
     \<lparr>r_concept_id = conceptId, r_related_id = relatedId,
      r_relationship_type = ''related'', r_strength = 1 / 2\<rparr>"

definition sample_basic_concept :: "string \<Rightarrow> concept" where
  "sample_basic_concept ident =
     \<lparr>c_id = ident, c_title = ident, c_body = ''body'', c_tags = [''auth''],
      c_importance = 3, c_created_at = 1, c_updated_at = 1\<rparr>"

subsection \<open>Searching the enhanced store\<close>

text \<open>
  The full-text index of a concept table, as for the memories: it rejects a \<open>MATCH\<close>
  expression or tells, for each row, whether it matches and with which \<open>bm25\<close> score
  and snippet.
\<close>

type_synonym 'row match_index = "string \<Rightarrow> db_error + ('row \<Rightarrow> (real \<times> string) option)"

record enhanced_search_params =
  es_q :: string
  es_k :: "int option"
  es_allowlist :: "string list option"
  es_projectId :: "string option"
  es_includeRelated :: bool
  es_boostRecent :: bool

record smart_search_result =
  er_concept :: concept_row
  er_score :: real
  er_snippet :: string

text \<open>
  The part of \<open>smart_score\<close> both queries share:
  \<open>c.importance * 2.0 + COALESCE(c.usage_count * 0.1, 0) + CASE WHEN c.last_used > ? THEN
  2.0 ELSE 0 END\<close>, the parameter being the clock less seven days.
\<close>

definition usage_score :: "int \<Rightarrow> concept_row \<Rightarrow> real" where
  "usage_score now row =
     real_of_int (c_importance row) * 2 + real_of_int (c_usage_count row) * 0.1
     + (case c_last_used row of
          None \<Rightarrow> 0
        | Some used \<Rightarrow> if used > now - 7 * 24 * 60 * 60 * 1000 then 2 else 0)"

text \<open>\<open>ORDER BY smart_score DESC\<close> and \<open>sort((a, b) => b.score - a.score)\<close>.\<close>

definition by_smart_score :: "'a \<times> real \<times> string \<Rightarrow> 'a \<times> real \<times> string \<Rightarrow> bool" where
  "by_smart_score a b = (fst (snd a) > fst (snd b))"

definition by_score :: "smart_search_result \<Rightarrow> smart_search_result \<Rightarrow> bool" where
  "by_score a b = (er_score a > er_score b)"

text \<open>
  The rows \<open>enrichWithRelated\<close> reads for one result: the concepts the result's edges
  lead to, \<open>ORDER BY r.strength DESC LIMIT 2\<close>.
\<close>

definition related_rows :: "concept_db \<Rightarrow> string \<Rightarrow> (concept_row \<times> real) list" where
  "related_rows db conceptId =
     take 2 (sort_by (\<lambda>a b. snd a > snd b)
       (concat (map (\<lambda>c. map (\<lambda>r. (c, r_strength r))
                             (filter (\<lambda>r. r_related_id r = c_id c \<and> r_concept_id r = conceptId)
                                (concept_relationships db)))
                    (concepts db))))"

fun enrich_related :: "smart_search_result \<Rightarrow> (concept_row \<times> real) list
    \<Rightarrow> smart_search_result list \<times> string list
    \<Rightarrow> smart_search_result list \<times> string list" where
  "enrich_related result [] (enriched, seen) = (enriched, seen)"
| "enrich_related result ((rel, strength) # related) (enriched, seen) =
     (if c_id rel \<notin> set seen
      then enrich_related result related
             (enriched @ [\<lparr>er_concept = rel, er_score = er_score result * strength * 0.5,
                            er_snippet = ''[Related to: '' @ c_title (er_concept result) @ '']''\<rparr>],
              seen @ [c_id rel])
      else enrich_related result related (enriched, seen))"

definition enrichWithRelated :: "concept_db \<Rightarrow> smart_search_result list
    \<Rightarrow> smart_search_result list" where
  "enrichWithRelated db found =
     sort_by by_score
       (fst (fold (\<lambda>result state.
                     enrich_related result (related_rows db (c_id (er_concept result))) state)
               (take 3 found)
               (found, map (\<lambda>r. c_id (er_concept r)) found)))"

definition enhanced_search :: "concept_row match_index \<Rightarrow> int \<Rightarrow> concept_db
    \<Rightarrow> enhanced_search_params \<Rightarrow> db_error + (concept_db \<times> smart_search_result list)" where
  "enhanced_search fts now db params =
     (let limit = or_default (es_k params) 10;
          searchQuery = (if es_q params = [] then ''*'' else es_q params)
      in case (if searchQuery = ''*''
               then Inr (\<lambda>row. Some (usage_score now row, []))
               else (case fts searchQuery of
                       Inl e \<Rightarrow> Inl e
                     | Inr hit \<Rightarrow>
                         Inr (\<lambda>row. case hit row of
                                       None \<Rightarrow> None
                                     | Some (bm25, snip) \<Rightarrow>
                                         Some (- bm25 * 3 + usage_score now row, snip)))) of
           Inl e \<Rightarrow> Inl e
         | Inr scored \<Rightarrow>
             (let allowed = (\<lambda>row. case es_projectId params of
                     None \<Rightarrow> True
                   | Some project \<Rightarrow>
                       project = []
                       \<or> (\<exists>a \<in> set (project_allowlists db).
                             a_concept_id a = c_id row \<and> a_project_id a = project
                             \<and> a_accepted a));
                  rows = sql_limit limit (sort_by by_smart_score
                           (filter (\<lambda>(row, _). allowed row)
                              (concat (map (\<lambda>row. case scored row of
                                                      None \<Rightarrow> []
                                                    | Some (score, snip) \<Rightarrow> [(row, score, snip)])
                                         (concepts db)))));
                  found = map (\<lambda>(row, smart_score, snip).
                                 \<lparr>er_concept = row,
                                  er_score = (if smart_score = 0 then 1 else smart_score),
                                  er_snippet = snip\<rparr>) rows;
                  finalResults = (if es_includeRelated params \<and> found \<noteq> []
                                  then enrichWithRelated db found else found)
              in Inr (if finalResults \<noteq> []
                      then trackUsage now (c_id (er_concept (hd finalResults))) db
                      else db,
                      finalResults)))"

subsection \<open>The basic store, \<open>ConceptStore\<close>, and the \<open>concept_search\<close> tool\<close>

record allowlist_row =
  al_project_id :: string
  al_concept_id :: string
  al_added_at :: int

record basic_store =
  bs_concepts :: "concept list"
  bs_allowlists :: "allowlist_row list"

record concept_search_params =
  cs_q :: string
  cs_k :: "int option"
  cs_allowlist :: "string list option"
  cs_projectId :: "string option"

record concept_search_result =
  cr_concept :: concept
  cr_score :: real
  cr_snippet :: string

definition normalizeSearchQuery :: "string \<Rightarrow> string" where
  "normalizeSearchQuery query =
     (if query = [] \<or> trim query = [] then ''*''
      else if trim query = ''*'' \<or> trim query = ''**'' then ''*''
      else double_quotes (trim query))"

text \<open>
  \<open>ORDER BY c.importance DESC, c.created_at DESC\<close> of the wildcard query and
  \<open>ORDER BY fts_score DESC, c.importance DESC\<close> of the full-text query.
\<close>

definition by_importance :: "concept \<times> real \<times> string \<Rightarrow> concept \<times> real \<times> string \<Rightarrow> bool" where
  "by_importance a b =
     (c_importance (fst a) > c_importance (fst b)
      \<or> (c_importance (fst a) = c_importance (fst b) \<and> c_created_at (fst a) > c_created_at (fst b)))"

definition by_fts_score :: "concept \<times> real \<times> string \<Rightarrow> concept \<times> real \<times> string \<Rightarrow> bool" where
  "by_fts_score a b =
     (fst (snd a) > fst (snd b)
      \<or> (fst (snd a) = fst (snd b) \<and> c_importance (fst a) > c_importance (fst b)))"

text \<open>
  \<open>search\<close> of the basic store. The query text is assembled from pieces chosen by two
  tests that agree on every query \<open>normalizeSearchQuery\<close> returns; were they to disagree
  with a filter present, the statement would be malformed.
\<close>

definition concept_store_search :: "concept match_index \<Rightarrow> basic_store \<Rightarrow> concept_search_params
    \<Rightarrow> db_error + concept_search_result list" where
  "concept_store_search fts store params =
     (let limit = or_default (cs_k params) 10;
          searchQuery = normalizeSearchQuery (cs_q params);
          allRows = (searchQuery = ''*'' \<or> trim searchQuery = []);
          byProject = (case cs_projectId params of None \<Rightarrow> False | Some p \<Rightarrow> p \<noteq> []);
          byList = (\<not> byProject
                    \<and> (case cs_allowlist params of None \<Rightarrow> False | Some ids \<Rightarrow> ids \<noteq> []))
      in if allRows \<and> searchQuery \<noteq> ''*'' \<and> (byProject \<or> byList) then Inl SqliteError
         else
           (case (if allRows then Inr (\<lambda>row. Some (1, [])) else fts searchQuery) of
              Inl e \<Rightarrow> Inl e
            | Inr hit \<Rightarrow>
                (let allowed = (\<lambda>row.
                        if byProject
                        then (\<exists>a \<in> set (bs_allowlists store).
                                al_concept_id a = c_id row
                                \<and> Some (al_project_id a) = cs_projectId params)
                        else if byList
                        then (case cs_allowlist params of
                                None \<Rightarrow> True
                              | Some ids \<Rightarrow> c_id row \<in> set ids)
                        else True);
                     rows = filter (\<lambda>(row, _). allowed row)
                              (concat (map (\<lambda>row. case hit row of
                                                      None \<Rightarrow> []
                                                    | Some (score, snip) \<Rightarrow> [(row, score, snip)])
                                         (bs_concepts store)));
                     ordered = (if searchQuery = ''*'' then sort_by by_importance rows
                                else sort_by by_fts_score rows)
                 in Inr (map (\<lambda>(row, fts_score, snip).
                               \<lparr>cr_concept = row, cr_score = - fts_score, cr_snippet = snip\<rparr>)
                           (sql_limit limit ordered)))))"

text \<open>
  The \<open>concept_search\<close> case of the tool dispatcher (\<open>index.ts\<close>), up to the list of
  results its response is written from. The store is absent until a project is initialised.
\<close>

record concept_search_args =
  ca_q :: "string option"
  ca_k :: "int option"
  ca_allowlist :: "string list option"

definition concept_search_tool :: "concept match_index \<Rightarrow> basic_store option \<Rightarrow> concept_search_args
    \<Rightarrow> db_error + concept_search_result list" where
  "concept_search_tool fts conceptStore args =
     (case conceptStore of
        None \<Rightarrow> Inl NotInitialized
      | Some store \<Rightarrow>
          (let conceptSearchQuery = (case ca_q args of
                                       None \<Rightarrow> ''*''
                                     | Some s \<Rightarrow> if s = [] then ''*'' else s);
               limit = Some (or_default (ca_k args) 10)
           in case concept_store_search fts store
                     \<lparr>cs_q = (if trim conceptSearchQuery = [] then ''*''
                              else trim conceptSearchQuery),
                      cs_k = limit, cs_allowlist = ca_allowlist args, cs_projectId = None\<rparr> of
                Inl e \<Rightarrow> Inl e
              | Inr conceptSearchResults \<Rightarrow>
                  if conceptSearchResults = [] \<and> conceptSearchQuery \<noteq> ''*''
                  then concept_store_search fts store
                         \<lparr>cs_q = ''*'', cs_k = limit, cs_allowlist = ca_allowlist args,
                          cs_projectId = None\<rparr>
                  else Inr conceptSearchResults))"

text \<open>
  The two rankings of the wildcard query, as orders on the rows: by \<open>usage_score\<close> in
  the enhanced store, by importance and then time of creation in the basic one.
\<close>

definition by_usage :: "int \<Rightarrow> concept_row \<Rightarrow> concept_row \<Rightarrow> bool" where
  "by_usage now a b = (usage_score now a > usage_score now b)"

definition by_importance_created :: "concept \<Rightarrow> concept \<Rightarrow> bool" where
  "by_importance_created a b =
     (c_importance a > c_importance b
      \<or> (c_importance a = c_importance b \<and> c_created_at a > c_created_at b))"

section \<open>Context Assembler: \<open>ContextBroker\<close>\<close>

datatype injection_type = MemoryInjection | ConceptInjection

record context_injection =
  ci_id :: string
  ci_type :: injection_type
  ci_summary :: string
  ci_content :: string
  ci_score :: real
  ci_source :: string
  ci_byteSize :: nat

text \<open>
  \<open>Buffer.byteLength(s, 'utf8')\<close>: a code unit below 128 takes one byte, the others of
  the range modelled take two.
\<close>

definition byteLength :: "string \<Rightarrow> nat" where
  "byteLength s = sum_list (map (\<lambda>c. if (of_char c :: nat) < 128 then 1 else 2) s)"

text \<open>\<open>s.split(sep)\<close> for a separator of one character.\<close>

fun splitOn :: "char \<Rightarrow> string \<Rightarrow> string \<Rightarrow> string list" where
  "splitOn sep cur [] = [cur]"
| "splitOn sep cur (c # cs) =
     (if c = sep then cur # splitOn sep [] cs else splitOn sep (cur @ [c]) cs)"

text \<open>\<open>set.add(x)\<close> on a \<open>Set\<close>, which keeps the order of insertion.\<close>

definition set_add :: "'a \<Rightarrow> 'a list \<Rightarrow> 'a list" where
  "set_add x xs = (if x \<in> set xs then xs else xs @ [x])"

text \<open>The inner loop of \<open>inferPathPrefixes\<close>, for \<open>i\<close> from 1 to the number of parts.\<close>

fun prefix_loop :: "string list \<Rightarrow> nat \<Rightarrow> nat \<Rightarrow> string list \<Rightarrow> string list" where
  "prefix_loop parts i 0 prefixes = prefixes"
| "prefix_loop parts i (Suc remaining) prefixes =
     (let prefix = ''/'' @ join ''/'' (take i parts);
          added = set_add prefix prefixes
      in prefix_loop parts (Suc i) remaining
           (if i < length parts then set_add (prefix @ ''/*'') added else added))"

definition inferPathPrefixes :: "string list \<Rightarrow> string list" where
  "inferPathPrefixes openFiles =
     fold (\<lambda>file prefixes.
             (let parts = filter (\<lambda>p. p \<noteq> []) (splitOn CHR ''/'' [] file)
              in prefix_loop parts 1 (length parts) prefixes))
       openFiles []"

text \<open>\<open>s.replace(/\*$/, '')\<close>.\<close>

definition strip_star :: "string \<Rightarrow> string" where
  "strip_star s = (if s \<noteq> [] \<and> last s = CHR ''*'' then butlast s else s)"

text \<open>The body of the two nested loops of \<open>pathMatchStrength\<close>, on \<open>maxMatch\<close>.\<close>

definition path_match_step :: "string \<Rightarrow> string \<Rightarrow> real \<Rightarrow> real" where
  "path_match_step memPath prefix maxMatch =
     (let memPathClean = strip_star memPath;
          prefixClean = strip_star prefix
      in if memPathClean = prefixClean then 1
         else if startsWith prefixClean memPathClean \<or> startsWith memPathClean prefixClean
         then max maxMatch
                (real (min (length memPathClean) (length prefixClean))
                 / real (max (length memPathClean) (length prefixClean)))
         else maxMatch)"

definition pathMatchStrength :: "string list \<Rightarrow> string list \<Rightarrow> real" where
  "pathMatchStrength memoryPaths prefixes =
     (if memoryPaths = [] \<or> prefixes = [] then 0
      else fold (\<lambda>memPath maxMatch. fold (path_match_step memPath) prefixes maxMatch)
             memoryPaths 0)"

definition hasPathMatch :: "string list \<Rightarrow> string list \<Rightarrow> bool" where
  "hasPathMatch memoryPaths prefixes = (pathMatchStrength memoryPaths prefixes > 0.3)"

definition stopWords :: "string list" where
  "stopWords =
     [''the'', ''a'', ''an'', ''and'', ''or'', ''but'', ''in'', ''on'', ''at'', ''to'', ''for'',
      ''of'', ''with'', ''by'', ''from'', ''up'', ''about'', ''into'', ''through'', ''during'',
      ''how'', ''when'', ''where'', ''why'', ''what'', ''which'', ''who'', ''whom'', ''this'',
      ''that'', ''these'', ''those'', ''am'', ''is'', ''are'', ''was'', ''were'', ''be'', ''been'',
      ''being'', ''have'', ''has'', ''had'', ''do'', ''does'', ''did'', ''will'', ''would'',
      ''should'', ''could'', ''may'', ''might'', ''must'', ''can'', ''need'', ''new'', ''create'',
      ''implement'', ''fix'', ''update'', ''add'', ''remove'', ''change'', ''modify'']"

definition extractSearchTerms :: "string \<Rightarrow> string" where
  "extractSearchTerms task =
     (let words = take 5 (filter (\<lambda>word. length word > 2 \<and> word \<notin> set stopWords)
                            (split_ws (toLowerCase task)))
      in if length words = 1 then hd words @ ''*''
         else if length words > 0 then join '' OR '' words
         else task)"

text \<open>The test \<open>taskMatchStrength\<close> makes for one tag against the words of the task.\<close>

definition tag_matches :: "string \<Rightarrow> string list \<Rightarrow> bool" where
  "tag_matches tagLower taskWords =
     (\<exists>word \<in> set taskWords.
        includes_str tagLower word \<or> includes_str word tagLower
        \<or> (length word \<ge> 3 \<and> length tagLower \<ge> 3
            \<and> take (min (length word) (length tagLower)) word
                = take (min (length word) (length tagLower)) tagLower))"

definition taskMatchStrength :: "string list \<Rightarrow> string \<Rightarrow> real" where
  "taskMatchStrength tagList task =
     (let taskWords = split_ws (toLowerCase task);
          matches = length (filter (\<lambda>t. tag_matches (toLowerCase t) taskWords) tagList)
      in if length tagList > 0 then real matches / real (length tagList) else 0)"

definition recencyScore :: "int \<Rightarrow> int \<Rightarrow> real" where
  "recencyScore now createdAt =
     (let ageHours = real_of_int (now - createdAt) / (1000 * 60 * 60)
      in if ageHours < 24 then 1
         else if ageHours < 168 then 0.8
         else if ageHours < 720 then 0.5
         else 0.2)"

definition formatMemoryForInjection :: "memory \<Rightarrow> string" where
  "formatMemoryForInjection mem =
     join [CHR 0x0A, CHR 0x0A]
       ([''## '' @ m_summary mem, m_text mem]
        @ (if length (m_paths mem) > 0 then [''**Paths:** '' @ join '', '' (m_paths mem)] else [])
        @ (if length (m_tags mem) > 0 then [''**Tags:** '' @ join '', '' (m_tags mem)] else []))"

definition formatConceptForInjection :: "concept \<Rightarrow> string" where
  "formatConceptForInjection c =
     ''## '' @ c_title c @ [CHR 0x0A, CHR 0x0A] @ c_body c @ [CHR 0x0A, CHR 0x0A]
     @ ''**Tags:** '' @ join '', '' (c_tags c)"

text \<open>The score \<open>scoreMemories\<close> gives one search result, and the injection it builds.\<close>

definition memory_score :: "string \<Rightarrow> int \<Rightarrow> string list \<Rightarrow> string \<Rightarrow> search_result \<Rightarrow> real" where
  "memory_score projectId now pathPrefixes task result =
     (let mem = sr_memory result;
          words = filter (\<lambda>w. length w > 2) (split_ws (toLowerCase task));
          isSingleWord = (length words = 1);
          pathScore = pathMatchStrength (m_paths mem) pathPrefixes;
          tagScore = taskMatchStrength (m_tags mem) task
      in 0
         + 1.5 * (if m_project_id mem = projectId then 1 else 0)
         + (if isSingleWord \<and> pathScore > 0 then 10 * pathScore
            else 2 * pathScore + (if pathScore > 0.5 then 2 else 0))
         + 0.8 * tagScore
         + (if isSingleWord \<and> tagScore > 0 then 3 else 0)
         + 0.6 * recencyScore now (m_created_at mem)
         + 0.6 * real_of_int (if m_importance mem = 0 then 3 else m_importance mem)
         - 1 * (if m_project_id mem \<noteq> projectId then 1 else 0)
         + min (sr_score result / 10) 1)"

definition scoreMemories :: "string \<Rightarrow> int \<Rightarrow> search_result list \<Rightarrow> string list \<Rightarrow> string
    \<Rightarrow> context_injection list" where
  "scoreMemories projectId now found pathPrefixes task =
     map (\<lambda>result.
            (let mem = sr_memory result;
                 content = formatMemoryForInjection mem
             in \<lparr>ci_id = m_id mem, ci_type = MemoryInjection, ci_summary = m_summary mem,
                 ci_content = content,
                 ci_score = memory_score projectId now pathPrefixes task result,
                 ci_source = m_project_id mem @ '':'' @ m_id mem,
                 ci_byteSize = byteLength content\<rparr>))
       found"

definition scoreConcepts :: "(concept \<times> real) list \<Rightarrow> string \<Rightarrow> context_injection list" where
  "scoreConcepts found task =
     map (\<lambda>(c, ftsScore).
            (let content = formatConceptForInjection c
             in \<lparr>ci_id = c_id c, ci_type = ConceptInjection, ci_summary = c_title c,
                 ci_content = content,
                 ci_score = 0 + 2 + 0.8 * taskMatchStrength (c_tags c) task
                            + 0.6 * real_of_int (c_importance c) + min (ftsScore / 10) 1,
                 ci_source = ''global:'' @ c_id c,
                 ci_byteSize = byteLength content\<rparr>))
       found"

text \<open>\<open>s.replace(/[^\w\s]/g, '')\<close> and \<open>normalizeForDedupe\<close>.\<close>

definition remove_special :: "string \<Rightarrow> string" where
  "remove_special s = filter (\<lambda>c. is_word c \<or> is_space c) s"

definition normalizeForDedupe :: "string \<Rightarrow> string" where
  "normalizeForDedupe summary = trim (collapse_ws (remove_special (toLowerCase summary)))"

text \<open>
  The loop of \<open>selectByBudget\<close> over the candidates, on \<open>selected\<close>, \<open>budgetUsed\<close> and
  \<open>seen\<close>: the first two tests leave the loop (\<open>break\<close>), the third goes on to the next
  candidate (\<open>continue\<close>).
\<close>

fun select_loop :: "context_injection list \<Rightarrow> int \<Rightarrow> int \<Rightarrow> context_injection list \<Rightarrow> int
    \<Rightarrow> string list \<Rightarrow> context_injection list" where
  "select_loop [] budgetLimit topK selected budgetUsed seen = selected"
| "select_loop (candidate # candidates) budgetLimit topK selected budgetUsed seen =
     (if int (length selected) \<ge> topK then selected
      else if budgetUsed + int (ci_byteSize candidate) > budgetLimit then selected
      else if normalizeForDedupe (ci_summary candidate) \<in> set seen
      then select_loop candidates budgetLimit topK selected budgetUsed seen
      else select_loop candidates budgetLimit topK (selected @ [candidate])
             (budgetUsed + int (ci_byteSize candidate))
             (set_add (normalizeForDedupe (ci_summary candidate)) seen))"

definition selectByBudget :: "context_injection list \<Rightarrow> int \<Rightarrow> int \<Rightarrow> context_injection list" where
  "selectByBudget candidates budgetLimit topK = select_loop candidates budgetLimit topK [] 0 []"

datatype mode = Hard | Soft | Smart

record preview_params =
  pv_task :: string
  pv_open_files :: "string list option"
  pv_budget_bytes :: "int option"
  pv_top_k :: "int option"
  pv_mode :: "mode option"

record preview_stats =
  st_projectMatches :: nat
  st_pathMatches :: nat
  st_conceptMatches :: nat
  st_totalCandidates :: nat

record context_preview =
  pr_injections :: "context_injection list"
  pr_budgetUsed :: nat
  pr_budgetLimit :: int
  pr_topK :: int
  pr_stats :: preview_stats

text \<open>
  \<open>getProjectAllowlist\<close>: the list \<open>updateAllowlist\<close> returns for \<open>list: true\<close>,
  \<open>SELECT concept_id FROM project_allowlists WHERE project_id = ? ORDER BY added_at
  DESC\<close>.
\<close>

definition getProjectAllowlist :: "basic_store \<Rightarrow> string \<Rightarrow> string list" where
  "getProjectAllowlist store projectId =
     map al_concept_id
       (sort_by (\<lambda>a b. al_added_at a > al_added_at b)
          (filter (\<lambda>a. al_project_id a = projectId) (bs_allowlists store)))"

text \<open>
  \<open>preview\<close>. \<open>search\<close> of the memories raises nothing; the search of the concepts is
  not in a \<open>try\<close> block, so its exception ends the call.
\<close>

definition preview :: "fts_index \<Rightarrow> concept match_index \<Rightarrow> string \<Rightarrow> int \<Rightarrow> memory_row list
    \<Rightarrow> basic_store \<Rightarrow> preview_params \<Rightarrow> db_error + context_preview" where
  "preview mfts cfts projectId now db store params =
     (let task = pv_task params;
          open_files = (case pv_open_files params of None \<Rightarrow> [] | Some fs \<Rightarrow> fs);
          budget_bytes = (case pv_budget_bytes params of None \<Rightarrow> 2048 | Some b \<Rightarrow> b);
          top_k = (case pv_top_k params of None \<Rightarrow> 10 | Some n \<Rightarrow> n);
          mode = (case pv_mode params of None \<Rightarrow> Smart | Some m \<Rightarrow> m);
          pathPrefixes = inferPathPrefixes open_files;
          searchQuery = extractSearchTerms task;
          memoryParams = \<lparr>s_q = searchQuery, s_k = Some 50, s_require_path_match = False,
                          s_tags = None, s_include_expired = False\<rparr>
      in case search mfts projectId now db memoryParams of
           Inl e \<Rightarrow> Inl e
         | Inr firstResults \<Rightarrow>
       (case (if firstResults = [] \<and> endsWith searchQuery ''*''
              then search mfts projectId now db (memoryParams\<lparr>s_q := butlast searchQuery\<rparr>)
              else Inr firstResults) of
           Inl e \<Rightarrow> Inl e
         | Inr memoryResults \<Rightarrow>
       (case (if mode = Smart \<or> mode = Soft
              then (case concept_store_search cfts store
                           \<lparr>cs_q = searchQuery, cs_k = Some 20,
                            cs_allowlist = (if mode = Smart
                                            then Some (getProjectAllowlist store projectId)
                                            else None),
                            cs_projectId = (if mode = Smart then Some projectId else None)\<rparr> of
                      Inl e \<Rightarrow> Inl e
                    | Inr found \<Rightarrow>
                        Inr (map (\<lambda>c. (cr_concept c, cr_score c))
                               (filter (\<lambda>c. cr_score c > 0.5) found)))
              else Inr []) of
           Inl e \<Rightarrow> Inl e
         | Inr conceptResults \<Rightarrow>
             (let scoredCandidates =
                    sort_by (\<lambda>a b. ci_score a > ci_score b)
                      (scoreMemories projectId now memoryResults pathPrefixes task
                       @ scoreConcepts conceptResults task);
                  selected = selectByBudget scoredCandidates budget_bytes top_k
              in Inr \<lparr>pr_injections = selected,
                      pr_budgetUsed = sum_list (map ci_byteSize selected),
                      pr_budgetLimit = budget_bytes,
                      pr_topK = top_k,
                      pr_stats =
                        \<lparr>st_projectMatches =
                           length (filter (\<lambda>r. m_project_id (sr_memory r) = projectId)
                                     memoryResults),
                         st_pathMatches =
                           length (filter (\<lambda>r. hasPathMatch (m_paths (sr_memory r)) pathPrefixes)
                                     memoryResults),
                         st_conceptMatches = length conceptResults,
                         st_totalCandidates = length scoredCandidates\<rparr>\<rparr>))))"

text \<open>Notions used to state the properties of the selection.\<close>

definition total_bytes :: "context_injection list \<Rightarrow> int" where
  "total_bytes selected = int (sum_list (map ci_byteSize selected))"

definition selected_keys :: "context_injection list \<Rightarrow> string set" where
  "selected_keys selected = set (map (\<lambda>c. normalizeForDedupe (ci_summary c)) selected)"

text \<open>Concrete candidates and memories, for the examples.\<close>

definition sample_injection :: "string \<Rightarrow> nat \<Rightarrow> context_injection" where
  "sample_injection summary bytes =
     \<lparr>ci_id = summary, ci_type = MemoryInjection, ci_summary = summary, ci_content = summary,
      ci_score = 1, ci_source = ''p:'' @ summary, ci_byteSize = bytes\<rparr>"

definition sample_memory :: "string \<Rightarrow> string \<Rightarrow> string list \<Rightarrow> memory_row" where
  "sample_memory ident summary paths =
     \<lparr>m_id = ident, m_project_id = ''p'', m_summary = summary, m_text = ''tokens'',
      m_tags = [''auth'', ''security''], m_paths = paths, m_importance = 5, m_created_at = 0,
      m_updated_at = 0, m_ttl = None, m_expires_at = None, m_dedupe_hash = ident\<rparr>"

section \<open>Verified properties\<close>

subsection \<open>Storage Engine: \<open>save\<close>\<close>

lemma find_None_filter: "find P xs = None \<longleftrightarrow> filter P xs = []"
  by (induction xs) auto

lemma find_Some_mem: "find P xs = Some x \<Longrightarrow> x \<in> set xs \<and> P x"
  by (induction xs) (auto split: if_splits)

lemma update_length:
  "update P now db i p = Inr (db', r) \<Longrightarrow> length db' = length db \<and> r = UpdatedExisting i"
  by (auto simp: update_def Let_def split: if_splits)

lemma update_row_keys [simp]:
  "m_dedupe_hash (update_row now p row) = m_dedupe_hash row"
  "m_project_id (update_row now p row) = m_project_id row"
  "m_id (update_row now p row) = m_id row"
  "m_updated_at (update_row now p row) = now"
  "m_summary (update_row now p row) = sp_summary p"
  "m_text (update_row now p row) = sp_text p"
  by (simp_all add: update_row_def)



lemma update_Inr:
  "update P now db i p = Inr (db', r) \<Longrightarrow>
     db' = map (\<lambda>row. if m_id row = i \<and> m_project_id row = P then update_row now p row else row) db
     \<and> r = UpdatedExisting i"
  by (simp add: update_def Let_def split: if_splits)

lemma update_with_fingerprint:
  assumes "update P now db i p = Inr (db', r)"
  shows "length (with_fingerprint P h db') = length (with_fingerprint P h db)"
proof -
  have "length (filter (\<lambda>row. m_dedupe_hash row = h \<and> m_project_id row = P)
          (map (\<lambda>row. if m_id row = i \<and> m_project_id row = P then update_row now p row else row) xs))
        = length (filter (\<lambda>row. m_dedupe_hash row = h \<and> m_project_id row = P) xs)" for xs
    by (induction xs) simp_all
  then show ?thesis
    using update_Inr [OF assms] by (simp add: with_fingerprint_def)
qed

lemma update_fields:
  assumes "update P now db i p = Inr (db', r)" and "row' \<in> set db'" and "m_id row' = i"
      and "m_project_id row' = P"
  shows "m_updated_at row' = now \<and> m_summary row' = sp_summary p \<and> m_text row' = sp_text p"
proof -
  from update_Inr [OF assms(1)] assms(2) obtain row where
    "row \<in> set db" and r: "row' = (if m_id row = i \<and> m_project_id row = P then update_row now p row else row)"
    by auto
  show ?thesis
  proof (cases "m_id row = i \<and> m_project_id row = P")
    case True
    then show ?thesis using r by simp
  next
    case False
    then have "row' = row" using r by (cases "m_id row = i") simp_all
    with False assms(3,4) show ?thesis by blast
  qed
qed


lemma save_existing:
  assumes "find (\<lambda>row. m_dedupe_hash row = fingerprint md5 p \<and> m_project_id row = P) db = Some row"
  shows "save md5 P now rnd db p =
           update P now db (m_id row) (p\<lparr>sp_paths := map_option (sort_by str_lt) (sp_paths p)\<rparr>)"
  using assms by (simp add: save_def Let_def fingerprint_def)


lemma save_fresh:
  assumes "find (\<lambda>row. m_dedupe_hash row = fingerprint md5 p \<and> m_project_id row = P) db = None"
      and "save md5 P now rnd db p = Inr (db', r)"
  shows "\<exists>mem row. r = Inserted mem \<and> m_id mem = generateId now rnd
           \<and> m_id mem \<notin> set (map m_id db)
           \<and> m_project_id mem = P \<and> importance_ok (m_importance mem)
           \<and> m_id row = m_id mem \<and> m_project_id row = P
           \<and> m_dedupe_hash row = fingerprint md5 p \<and> db' = db @ [row]"
  using assms
  by (clarsimp simp: save_def Let_def fingerprint_def memory.defs split: if_splits)


text \<open>
  Claim C1. \<open>save\<close> computes the fingerprint from the lower-cased, trimmed summary and
  the sorted paths (\<open>computeDedupeHash\<close>, \<open>fingerprint\<close>). When a save is followed by a
  second save with the same fingerprint in the same project (both succeeding), the second
  one finds a row with that fingerprint, rewrites its summary, text and \<open>updated_at\<close>,
  returns that row's id and inserts nothing: the table keeps its length and the number of
  rows with the fingerprint. When no row had the fingerprint before the first save, the first
  save inserted one row under the id it generated, which no stored row had, and exactly one
  row carries the fingerprint after both calls.
\<close>

theorem save_dedupe:
  assumes s1: "save md5 P now1 rnd1 db p1 = Inr (db1, r1)"
      and s2: "save md5 P now2 rnd2 db1 p2 = Inr (db2, r2)"
      and fp: "fingerprint md5 p2 = fingerprint md5 p1"
  shows "(\<exists>row \<in> set db1. m_dedupe_hash row = fingerprint md5 p1 \<and> m_project_id row = P
            \<and> r2 = UpdatedExisting (m_id row)
            \<and> (\<exists>row' \<in> set db2. m_id row' = m_id row \<and> m_project_id row' = P)
            \<and> (\<forall>row' \<in> set db2. m_id row' = m_id row \<and> m_project_id row' = P \<longrightarrow>
                  m_updated_at row' = now2 \<and> m_summary row' = sp_summary p2
                  \<and> m_text row' = sp_text p2))
       \<and> length db2 = length db1
       \<and> length (with_fingerprint P (fingerprint md5 p1) db2)
           = length (with_fingerprint P (fingerprint md5 p1) db1)
       \<and> (with_fingerprint P (fingerprint md5 p1) db = [] \<longrightarrow>
            length (with_fingerprint P (fingerprint md5 p1) db2) = 1
            \<and> (\<exists>mem. r1 = Inserted mem \<and> m_id mem = generateId now1 rnd1
                  \<and> m_id mem \<notin> set (map m_id db) \<and> length db1 = length db + 1))"
proof -
  let ?h = "fingerprint md5 p1"
  let ?hit = "\<lambda>row. m_dedupe_hash row = ?h \<and> m_project_id row = P"
  let ?p2 = "p2\<lparr>sp_paths := map_option (sort_by str_lt) (sp_paths p2)\<rparr>"
  have ex1: "with_fingerprint P ?h db1 \<noteq> []"
  proof (cases "find ?hit db")
    case None
    from save_fresh [OF None s1] obtain row where
      "db1 = db @ [row]" and "m_project_id row = P" and "m_dedupe_hash row = ?h"
      by blast
    then show ?thesis by (simp add: with_fingerprint_def)
  next
    case (Some row)
    then have nonempty: "with_fingerprint P ?h db \<noteq> []"
      using find_None_filter [of ?hit db] by (simp add: with_fingerprint_def)
    from s1 have "update P now1 db (m_id row) (p1\<lparr>sp_paths := map_option (sort_by str_lt) (sp_paths p1)\<rparr>)
        = Inr (db1, r1)"
      by (simp add: save_existing [OF Some])
    from update_with_fingerprint [OF this, of ?h] nonempty show ?thesis by auto
  qed
  then obtain row where f2: "find ?hit db1 = Some row"
    using find_None_filter [of ?hit db1] by (auto simp: with_fingerprint_def)
  then have row: "row \<in> set db1" "?hit row"
    using find_Some_mem [OF f2] by simp_all
  have u2: "update P now2 db1 (m_id row) ?p2 = Inr (db2, r2)"
    using s2 save_existing [of md5 p2 P db1 row] f2 fp by simp
  have r2: "length db2 = length db1" "r2 = UpdatedExisting (m_id row)"
    using update_length [OF u2] by simp_all
  have cnt: "length (with_fingerprint P ?h db2) = length (with_fingerprint P ?h db1)"
    by (rule update_with_fingerprint [OF u2])
  have fields: "\<forall>row' \<in> set db2. m_id row' = m_id row \<and> m_project_id row' = P \<longrightarrow>
                  m_updated_at row' = now2 \<and> m_summary row' = sp_summary p2
                  \<and> m_text row' = sp_text p2"
    using update_fields [OF u2] by simp
  have present: "\<exists>row' \<in> set db2. m_id row' = m_id row \<and> m_project_id row' = P"
  proof -
    let ?f = "\<lambda>r. if m_id r = m_id row \<and> m_project_id r = P then update_row now2 ?p2 r else r"
    have "db2 = map ?f db1" using update_Inr [OF u2] by simp
    then have "?f row \<in> set db2" using row(1) by simp
    then have "update_row now2 ?p2 row \<in> set db2" using row(2) by simp
    then show ?thesis using row(2) by (intro bexI [of _ "update_row now2 ?p2 row"]) simp_all
  qed
  have fresh: "with_fingerprint P ?h db = [] \<longrightarrow>
            length (with_fingerprint P ?h db2) = 1
            \<and> (\<exists>mem. r1 = Inserted mem \<and> m_id mem = generateId now1 rnd1
                  \<and> m_id mem \<notin> set (map m_id db) \<and> length db1 = length db + 1)"
  proof
    assume e: "with_fingerprint P ?h db = []"
    then have None: "find ?hit db = None"
      using find_None_filter [of ?hit db] by (simp add: with_fingerprint_def)
    from save_fresh [OF None s1] obtain mem row where m:
      "r1 = Inserted mem" "m_id mem = generateId now1 rnd1" "m_id mem \<notin> set (map m_id db)"
      "m_project_id row = P" "m_dedupe_hash row = ?h" "db1 = db @ [row]"
      by blast
    have "length (with_fingerprint P ?h db1) = 1"
      using e m(4,5,6) by (simp add: with_fingerprint_def)
    with cnt m show "length (with_fingerprint P ?h db2) = 1
            \<and> (\<exists>mem. r1 = Inserted mem \<and> m_id mem = generateId now1 rnd1
                  \<and> m_id mem \<notin> set (map m_id db) \<and> length db1 = length db + 1)"
      by simp
  qed
  from row r2 cnt fields present fresh show ?thesis by blast
qed



text \<open>The theorem at two saves that differ in letter case, white space and path order.\<close>

theorem save_dedupe_witness:
  "\<exists>db1 r1 db2 r2.
     save (\<lambda>s. s) ''proj'' 1000 ''00ff'' []
       \<lparr>sp_summary = ''JWT auth flow'', sp_text = ''t1'', sp_tags = Some [''auth''],
        sp_paths = Some [''src/b'', ''src/a''], sp_importance = Some 5, sp_ttl = None\<rparr>
       = Inr (db1, r1)
     \<and> save (\<lambda>s. s) ''proj'' 2000 ''11aa'' db1
       \<lparr>sp_summary = '' jwt AUTH flow'', sp_text = ''t2'', sp_tags = None,
        sp_paths = Some [''src/a'', ''src/b''], sp_importance = None, sp_ttl = None\<rparr>
       = Inr (db2, r2)
     \<and> r2 = UpdatedExisting ''mem_1000_00ff''
     \<and> length db2 = 1
     \<and> length (with_fingerprint ''proj'' ''jwt auth flow|src/a|src/b'' db2) = 1"
proof -
  let ?pA = "\<lparr>sp_summary = ''JWT auth flow'', sp_text = ''t1'', sp_tags = Some [''auth''],
        sp_paths = Some [''src/b'', ''src/a''], sp_importance = Some 5, sp_ttl = None\<rparr>"
  let ?pB = "\<lparr>sp_summary = '' jwt AUTH flow'', sp_text = ''t2'', sp_tags = None,
        sp_paths = Some [''src/a'', ''src/b''], sp_importance = None, sp_ttl = None\<rparr>"
  let ?memA = "\<lparr>m_id = ''mem_1000_00ff'', m_project_id = ''proj'',
          m_summary = ''JWT auth flow'', m_text = ''t1'',
          m_tags = [''auth''], m_paths = [''src/a'', ''src/b''],
          m_importance = 5, m_created_at = 1000, m_updated_at = 1000,
          m_ttl = None, m_expires_at = None\<rparr>"
  let ?db1 = "[memory.extend ?memA \<lparr>m_dedupe_hash = ''jwt auth flow|src/a|src/b''\<rparr>]"
  let ?db2 = "[\<lparr>m_id = ''mem_1000_00ff'', m_project_id = ''proj'',
          m_summary = '' jwt AUTH flow'', m_text = ''t2'',
          m_tags = [''auth''], m_paths = [''src/a'', ''src/b''],
          m_importance = 5, m_created_at = 1000, m_updated_at = 2000,
          m_ttl = None, m_expires_at = None,
          m_dedupe_hash = ''jwt auth flow|src/a|src/b''\<rparr>]"
  have fA: "fingerprint (\<lambda>s. s) ?pA = ''jwt auth flow|src/a|src/b''"
    by code_simp
  have fB: "fingerprint (\<lambda>s. s) ?pB = ''jwt auth flow|src/a|src/b''"
    by code_simp
  have s1: "save (\<lambda>s. s) ''proj'' 1000 ''00ff'' [] ?pA = Inr (?db1, Inserted ?memA)"
    by code_simp
  have s2: "save (\<lambda>s. s) ''proj'' 2000 ''11aa'' ?db1 ?pB
              = Inr (?db2, UpdatedExisting ''mem_1000_00ff'')"
    by code_simp
  have e: "with_fingerprint ''proj'' (fingerprint (\<lambda>s. s) ?pA) [] = []"
    by (simp add: with_fingerprint_def)
  have fp: "fingerprint (\<lambda>s. s) ?pB = fingerprint (\<lambda>s. s) ?pA"
    by (simp only: fA fB)
  from save_dedupe [OF s1 s2 fp]
  have "with_fingerprint ''proj'' (fingerprint (\<lambda>s. s) ?pA) [] = [] \<longrightarrow>
          length (with_fingerprint ''proj'' (fingerprint (\<lambda>s. s) ?pA) ?db2) = 1"
    by blast
  with e have "length (with_fingerprint ''proj'' (fingerprint (\<lambda>s. s) ?pA) ?db2) = 1"
    by blast
  then have "length (with_fingerprint ''proj'' ''jwt auth flow|src/a|src/b'' ?db2) = 1"
    by (simp only: fA)
  with s1 s2 show ?thesis by simp
qed

subsection \<open>Storage Engine: the search cascade and the reads\<close>

lemma set_insert_by: "set (insert_by lt x xs) = insert x (set xs)"
  by (induction xs) auto

lemma set_sort_by: "set (sort_by lt xs) = set xs"
  by (induction xs) (auto simp: set_insert_by)

lemma set_sql_limit: "set (sql_limit n xs) \<subseteq> set xs"
  by (auto simp: sql_limit_def dest: in_set_takeD)

lemma rowToMemory_project [simp]: "m_project_id (rowToMemory row) = m_project_id row"
  by (simp add: rowToMemory_def)

lemma executeSearch_project:
  assumes "executeSearch fts P now db params = Inr rs" and "r \<in> set rs"
  shows "m_project_id (sr_memory r) = P"
proof -
  define pathTerms where "pathTerms = filter (\<lambda>term. includes_str term ''/'' \<or> includes_str term [CHR 0x5C]
                                       \<or> includes_str term ''.'') (split_ws (s_q params))"
  have ne: "\<not> (s_require_path_match params \<and> pathTerms = [])"
    using assms by (auto simp: executeSearch_def Let_def pathTerms_def)
  then obtain hit where hit: "fts (escapeQuery (s_q params)) = Inr hit"
    using assms(1) by (cases "fts (escapeQuery (s_q params))") (auto simp: executeSearch_def Let_def pathTerms_def)
  from assms(1) ne hit obtain cands keep where
    rs: "rs = map (\<lambda>(row, fts_score, snip). \<lparr>sr_memory = rowToMemory row, sr_score = - fts_score,
                                sr_snippet = snip\<rparr>)
               (sql_limit (or_default (s_k params) 10)
                  (sort_by search_order (filter (\<lambda>(row, x). m_project_id row = P \<and> keep row) cands)))"
    by (auto simp: executeSearch_def Let_def pathTerms_def)
  from assms(2) obtain row score snip where
    "(row, score, snip) \<in> set (sql_limit (or_default (s_k params) 10)
                  (sort_by search_order (filter (\<lambda>(row, x). m_project_id row = P \<and> keep row) cands)))"
    and r: "r = \<lparr>sr_memory = rowToMemory row, sr_score = - score, sr_snippet = snip\<rparr>"
    unfolding rs by auto
  then have "(row, score, snip) \<in> set (filter (\<lambda>(row, x). m_project_id row = P \<and> keep row) cands)"
    using set_sql_limit set_sort_by by fastforce
  then show ?thesis using r by simp
qed

lemma try_stage_Some: "try_stage r = Some rs \<Longrightarrow> r = Inr rs \<and> rs \<noteq> []"
  by (auto simp: try_stage_def split: sum.splits if_splits)

lemma try_stage_None: "try_stage r = None \<longleftrightarrow> (\<exists>e. r = Inl e) \<or> r = Inr []"
  by (auto simp: try_stage_def split: sum.splits if_splits)

lemma params_q_same [simp]: "params\<lparr>s_q := s_q params\<rparr> = (params :: search_params)"
  by simp


lemma search_total: "\<exists>rs. search fts P now db params = Inr rs"
  by (simp add: search_def Let_def split: option.splits sum.splits)

lemma search_source:
  assumes "search fts P now db params = Inr rs" and "rs \<noteq> []"
  shows "\<exists>sq \<in> set (stage_queries (s_q params)).
           executeSearch fts P now db (params\<lparr>s_q := sq\<rparr>) = Inr rs"
proof -
  let ?E = "\<lambda>sq. executeSearch fts P now db (params\<lparr>s_q := sq\<rparr>)"
  let ?ws = "query_words (s_q params)"
  show ?thesis
  proof (cases "try_stage (?E (s_q params))")
    case (Some a)
    then have "?E (s_q params) = Inr rs" using assms(1) try_stage_Some [OF Some]
      by (simp add: search_def)
    then show ?thesis by (auto simp: stage_queries_def)
  next
    case n1: None
    show ?thesis
    proof (cases "if has_special (s_q params) then try_stage (?E (fallbackQuery (s_q params))) else None")
      case (Some a)
      then have hs: "has_special (s_q params)" and t: "try_stage (?E (fallbackQuery (s_q params))) = Some a"
        by (simp_all split: if_splits)
      have "a = rs" using assms(1) n1 Some by (simp add: search_def)
      with try_stage_Some [OF t] hs show ?thesis by (auto simp: stage_queries_def)
    next
      case n2: None
      show ?thesis
      proof (cases "if length ?ws > 1 then try_stage (?E (join '' OR '' ?ws)) else None")
        case (Some a)
        then have hs: "length ?ws > 1" and t: "try_stage (?E (join '' OR '' ?ws)) = Some a"
          by (simp_all split: if_splits)
        have "a = rs" using assms(1) n1 n2 Some by (simp add: search_def Let_def)
        with try_stage_Some [OF t] hs show ?thesis by (auto simp: stage_queries_def)
      next
        case n3: None
        have "length ?ws > 0 \<and> ?E (hd ?ws) = Inr rs"
          using assms n1 n2 n3 by (simp add: search_def Let_def split: if_splits sum.splits)
        then show ?thesis by (auto simp: stage_queries_def)
      qed
    qed
  qed
qed


lemma search_empty_exhausted:
  assumes "search fts P now db params = Inr []" and "sq \<in> set (stage_queries (s_q params))"
  shows "try_stage (executeSearch fts P now db (params\<lparr>s_q := sq\<rparr>)) = None"
proof -
  let ?E = "\<lambda>sq. executeSearch fts P now db (params\<lparr>s_q := sq\<rparr>)"
  let ?ws = "query_words (s_q params)"
  have n1: "try_stage (?E (s_q params)) = None"
  proof (cases "try_stage (?E (s_q params))")
    case (Some a)
    then show ?thesis using assms(1) try_stage_Some [OF Some] by (simp add: search_def)
  qed simp
  have n2: "try_stage (?E (fallbackQuery (s_q params))) = None" if "has_special (s_q params)"
  proof (cases "try_stage (?E (fallbackQuery (s_q params)))")
    case (Some a)
    then show ?thesis using that assms(1) n1 try_stage_Some [OF Some] by (simp add: search_def)
  qed simp
  have n2': "(if has_special (s_q params) then try_stage (?E (fallbackQuery (s_q params))) else None) = None"
    using n2 by simp
  have n3: "try_stage (?E (join '' OR '' ?ws)) = None" if "length ?ws > 1"
  proof (cases "try_stage (?E (join '' OR '' ?ws))")
    case (Some a)
    then show ?thesis using that assms(1) n1 n2' try_stage_Some [OF Some]
      by (simp add: search_def Let_def)
  qed simp
  have n3': "(if length ?ws > 1 then try_stage (?E (join '' OR '' ?ws)) else None) = None"
    using n3 by simp
  have n4: "try_stage (?E (hd ?ws)) = None" if "length ?ws > 0"
    using that assms(1) n1 n2' n3'
    by (simp add: search_def Let_def try_stage_def split: sum.splits)
  have "sq = s_q params \<or> (has_special (s_q params) \<and> sq = fallbackQuery (s_q params))
        \<or> (length ?ws > 1 \<and> sq = join '' OR '' ?ws) \<or> (length ?ws > 0 \<and> sq = hd ?ws)"
    using assms(2) by (auto simp: stage_queries_def split: if_splits)
  then show ?thesis using n1 n2 n3 n4 by (elim disjE conjE) simp_all
qed


lemma concat_map_empty: "concat (map (\<lambda>x. []) xs) = []"
  by (induction xs) simp_all

lemma sql_limit_Nil [simp]: "sql_limit n [] = []"
  by (simp add: sql_limit_def)

lemma executeSearch_quiet:
  "executeSearch (quiet fts) P now db params =
     (case executeSearch fts P now db params of Inl e \<Rightarrow> Inr [] | Inr rs \<Rightarrow> Inr rs)"
proof (cases "fts (escapeQuery (s_q params))")
  case (Inl e)
  then have "quiet fts (escapeQuery (s_q params)) = Inr (\<lambda>row. None)"
    by (simp add: quiet_def)
  then have "executeSearch (quiet fts) P now db params = Inr []"
    by (simp add: executeSearch_def Let_def concat_map_empty)
  moreover have "executeSearch fts P now db params = Inr [] \<or> executeSearch fts P now db params = Inl e"
    using Inl by (simp add: executeSearch_def Let_def)
  ultimately show ?thesis by auto
next
  case (Inr hit)
  then have "quiet fts (escapeQuery (s_q params)) = Inr hit"
    by (simp add: quiet_def)
  then have "executeSearch (quiet fts) P now db params = executeSearch fts P now db params"
    using Inr by (simp add: executeSearch_def Let_def)
  moreover have "\<exists>rs. executeSearch fts P now db params = Inr rs"
    using Inr by (simp add: executeSearch_def Let_def)
  ultimately show ?thesis by auto
qed

lemma try_stage_quiet:
  "try_stage (executeSearch (quiet fts) P now db params) = try_stage (executeSearch fts P now db params)"
  by (cases "executeSearch fts P now db params") (simp_all add: executeSearch_quiet try_stage_def)

lemma last_stage_quiet:
  "(case executeSearch (quiet fts) P now db params of Inr rs \<Rightarrow> Inr rs | Inl e \<Rightarrow> Inr []) =
   (case executeSearch fts P now db params of Inr rs \<Rightarrow> (Inr rs :: db_error + search_result list) | Inl e \<Rightarrow> Inr [])"
  by (cases "executeSearch fts P now db params") (simp_all add: executeSearch_quiet)

lemma search_quiet: "search (quiet fts) P now db params = search fts P now db params"
  by (simp only: search_def try_stage_quiet last_stage_quiet)


text \<open>
  Claim C3. For every query, index, table and parameters \<open>search\<close> returns a list and
  raises nothing: each call of \<open>executeSearch\<close> stands in a \<open>try\<close> block. A stage whose
  statement fails counts as a stage that found nothing: \<open>search\<close> gives the same result
  over the index that answers "no row" where the given one fails (\<open>quiet\<close>). And the
  empty list is returned only when every stage run for the query (\<open>stage_queries\<close>: a
  stage whose guard fails has no query and is not run) found nothing or failed.
\<close>

theorem search_never_raises:
  "(\<exists>rs. search fts P now db params = Inr rs)
   \<and> search (quiet fts) P now db params = search fts P now db params
   \<and> (search fts P now db params = Inr [] \<longrightarrow>
        (\<forall>sq \<in> set (stage_queries (s_q params)).
           try_stage (executeSearch fts P now db (params\<lparr>s_q := sq\<rparr>)) = None))"
  using search_total [of fts P now db params] search_quiet [of fts P now db params]
    search_empty_exhausted [of fts P now db params]
  by blast

text \<open>The theorem at an index that rejects every statement.\<close>

theorem search_never_raises_witness:
  "search (\<lambda>expr. Inl SqliteError) ''p'' 0 []
      \<lparr>s_q = ''foo-bar!'', s_k = None, s_require_path_match = False, s_tags = None,
       s_include_expired = False\<rparr> = Inr []
   \<and> try_stage (executeSearch (\<lambda>expr. Inl SqliteError) ''p'' 0 []
      \<lparr>s_q = ''foo bar'', s_k = None, s_require_path_match = False, s_tags = None,
       s_include_expired = False\<rparr>) = None"
proof -
  let ?fts = "(\<lambda>expr. Inl SqliteError) :: fts_index"
  let ?params = "\<lparr>s_q = ''foo-bar!'', s_k = None, s_require_path_match = False, s_tags = None,
       s_include_expired = False\<rparr>"
  have e: "search ?fts ''p'' 0 [] ?params = Inr []"
    by (simp add: search_def try_stage_def executeSearch_def Let_def)
  have m: "''foo bar'' \<in> set (stage_queries (s_q ?params))"
    by code_simp
  from search_never_raises [of ?fts "''p''" 0 "[]" ?params] e m
  have "try_stage (executeSearch ?fts ''p'' 0 [] (?params\<lparr>s_q := ''foo bar''\<rparr>)) = None"
    by blast
  with e show ?thesis by simp
qed




lemma searchWithDebug_results:
  "\<exists>e. searchWithDebug fts P now db params = Inr e
       \<and> search fts P now db params = Inr (dbg_results e)"
  by (simp add: searchWithDebug_def search_def Let_def split: option.splits sum.splits)

lemma getRecent_project:
  assumes "m \<in> set (getRecent P now db rp)"
  shows "m_project_id m = P"
proof -
  from assms obtain keep where
    "m \<in> rowToMemory ` set (sql_limit (or_default (rp_k rp) 10)
            (sort_by (\<lambda>a b. m_created_at a > m_created_at b)
               (filter (\<lambda>row. m_project_id row = P \<and> keep row) db)))"
    by (auto simp: getRecent_def Let_def)
  then obtain row where "row \<in> set (filter (\<lambda>row. m_project_id row = P \<and> keep row) db)"
    and "m = rowToMemory row"
    using set_sql_limit set_sort_by by fastforce
  then show ?thesis by simp
qed

lemma get_project: "get P db i = Some m \<Longrightarrow> m_project_id m = P"
  by (auto simp: get_def dest: find_Some_mem)

lemma fold_null_keeps:
  "fold (\<lambda>ident result. result(ident \<mapsto> None)) ids init i = Some (Some m)
     \<Longrightarrow> init i = Some (Some m)"
proof (induction ids arbitrary: init)
  case Nil
  then show ?case by simp
next
  case (Cons a ids)
  from Cons.prems have "fold (\<lambda>ident result. result(ident \<mapsto> None)) ids (init(a \<mapsto> None)) i
      = Some (Some m)"
    by (simp only: fold_Cons comp_apply)
  then have "(init(a \<mapsto> None)) i = Some (Some m)" by (rule Cons.IH)
  then show ?case by (simp split: if_splits)
qed

lemma fold_rows_project:
  assumes "\<forall>row \<in> set rows. m_project_id row = P"
      and "\<forall>m. init i = Some (Some m) \<longrightarrow> m_project_id m = P"
      and "fold (\<lambda>row result. result(m_id row \<mapsto> Some (rowToMemory row))) rows init i
             = Some (Some m)"
  shows "m_project_id m = P"
  using assms
proof (induction rows arbitrary: init)
  case Nil
  then show ?case by simp
next
  case (Cons a rows)
  let ?init = "init(m_id a \<mapsto> Some (rowToMemory a))"
  have 1: "\<forall>row \<in> set rows. m_project_id row = P" using Cons.prems(1) by simp
  have 2: "\<forall>m. ?init i = Some (Some m) \<longrightarrow> m_project_id m = P"
    using Cons.prems(1,2) by simp
  have 3: "fold (\<lambda>row result. result(m_id row \<mapsto> Some (rowToMemory row))) rows ?init i
             = Some (Some m)"
    using Cons.prems(3) by (simp only: fold_Cons comp_apply)
  from Cons.IH [OF 1 2 3] show ?case .
qed

lemma getMultiple_project:
  assumes "getMultiple P db ids i = Some (Some m)"
  shows "m_project_id m = P"
proof (cases "ids = []")
  case True
  then show ?thesis using assms by (simp add: getMultiple_def)
next
  case False
  let ?rows = "filter (\<lambda>row. m_id row \<in> set ids \<and> m_project_id row = P) db"
  let ?init = "fold (\<lambda>ident result. result(ident \<mapsto> None)) ids
                 (Map.empty :: string \<rightharpoonup> memory option)"
  have "fold (\<lambda>row result. result(m_id row \<mapsto> Some (rowToMemory row))) ?rows ?init i = Some (Some m)"
    using assms False by (simp add: getMultiple_def Let_def)
  moreover have "\<forall>row \<in> set ?rows. m_project_id row = P" by simp
  moreover have "\<forall>m. ?init i = Some (Some m) \<longrightarrow> m_project_id m = P"
  proof (intro allI impI)
    fix m' :: memory
    assume "?init i = Some (Some m')"
    from fold_null_keeps [OF this] show "m_project_id m' = P" by simp
  qed
  ultimately show ?thesis by (rule fold_rows_project [rotated 2])
qed


text \<open>
  Claim C9. Every memory returned by \<open>search\<close>, \<open>searchWithDebug\<close>, \<open>getRecent\<close>,
  \<open>get\<close> and \<open>getMultiple\<close> of the engine of project \<open>P\<close> has project id \<open>P\<close>,
  whatever rows the table holds.
\<close>

theorem reads_project_isolated:
  "(\<forall>rs. search fts P now db params = Inr rs \<longrightarrow> (\<forall>r \<in> set rs. m_project_id (sr_memory r) = P))
   \<and> (\<forall>e. searchWithDebug fts P now db params = Inr e \<longrightarrow>
          (\<forall>r \<in> set (dbg_results e). m_project_id (sr_memory r) = P))
   \<and> (\<forall>m \<in> set (getRecent P now db rp). m_project_id m = P)
   \<and> (\<forall>m. get P db ident = Some m \<longrightarrow> m_project_id m = P)
   \<and> (\<forall>i m. getMultiple P db ids i = Some (Some m) \<longrightarrow> m_project_id m = P)"
proof -
  have s: "\<forall>r \<in> set rs. m_project_id (sr_memory r) = P" if "search fts P now db params = Inr rs" for rs
  proof (cases "rs = []")
    case False
    from search_source [OF that False] obtain sq where
      "executeSearch fts P now db (params\<lparr>s_q := sq\<rparr>) = Inr rs" by blast
    then show ?thesis using executeSearch_project by blast
  qed simp
  have d: "\<forall>r \<in> set (dbg_results e). m_project_id (sr_memory r) = P"
    if "searchWithDebug fts P now db params = Inr e" for e
    using searchWithDebug_results [of fts P now db params] that s by auto
  show ?thesis
    using s d getRecent_project get_project getMultiple_project by blast
qed

text \<open>
  The theorem at a table that holds a row of project \<open>p\<close> and a row of another project
  which the index matches as well: the reads of \<open>p\<close> return the first row only.
\<close>

theorem reads_project_isolated_witness:
  "search (\<lambda>expr. Inr (\<lambda>row. Some (- 1, ''-''))) ''p'' 0
      [\<lparr>m_id = ''m1'', m_project_id = ''p'', m_summary = ''foo'', m_text = ''x'', m_tags = [],
        m_paths = [], m_importance = 3, m_created_at = 0, m_updated_at = 0, m_ttl = None,
        m_expires_at = None, m_dedupe_hash = ''h''\<rparr>,
       \<lparr>m_id = ''m2'', m_project_id = ''other'', m_summary = ''foo'', m_text = ''y'', m_tags = [],
        m_paths = [], m_importance = 3, m_created_at = 0, m_updated_at = 0, m_ttl = None,
        m_expires_at = None, m_dedupe_hash = ''h''\<rparr>]
      \<lparr>s_q = ''foo'', s_k = None, s_require_path_match = False, s_tags = None,
       s_include_expired = False\<rparr>
    = Inr [\<lparr>sr_memory =
              \<lparr>m_id = ''m1'', m_project_id = ''p'', m_summary = ''foo'', m_text = ''x'',
               m_tags = [], m_paths = [], m_importance = 3, m_created_at = 0,
               m_updated_at = 0, m_ttl = None, m_expires_at = None\<rparr>,
            sr_score = 1, sr_snippet = ''-''\<rparr>]
   \<and> getRecent ''p'' 0
      [\<lparr>m_id = ''m1'', m_project_id = ''p'', m_summary = ''foo'', m_text = ''x'', m_tags = [],
        m_paths = [], m_importance = 3, m_created_at = 0, m_updated_at = 0, m_ttl = None,
        m_expires_at = None, m_dedupe_hash = ''h''\<rparr>,
       \<lparr>m_id = ''m2'', m_project_id = ''other'', m_summary = ''foo'', m_text = ''y'', m_tags = [],
        m_paths = [], m_importance = 3, m_created_at = 0, m_updated_at = 0, m_ttl = None,
        m_expires_at = None, m_dedupe_hash = ''h''\<rparr>]
      \<lparr>rp_k = None, rp_path_prefix = None, rp_include_expired = False\<rparr>
    = [\<lparr>m_id = ''m1'', m_project_id = ''p'', m_summary = ''foo'', m_text = ''x'',
               m_tags = [], m_paths = [], m_importance = 3, m_created_at = 0,
               m_updated_at = 0, m_ttl = None, m_expires_at = None\<rparr>]
   \<and> get ''p''
      [\<lparr>m_id = ''m1'', m_project_id = ''p'', m_summary = ''foo'', m_text = ''x'', m_tags = [],
        m_paths = [], m_importance = 3, m_created_at = 0, m_updated_at = 0, m_ttl = None,
        m_expires_at = None, m_dedupe_hash = ''h''\<rparr>,
       \<lparr>m_id = ''m2'', m_project_id = ''other'', m_summary = ''foo'', m_text = ''y'', m_tags = [],
        m_paths = [], m_importance = 3, m_created_at = 0, m_updated_at = 0, m_ttl = None,
        m_expires_at = None, m_dedupe_hash = ''h''\<rparr>] ''m2'' = None
   \<and> getMultiple ''p''
      [\<lparr>m_id = ''m1'', m_project_id = ''p'', m_summary = ''foo'', m_text = ''x'', m_tags = [],
        m_paths = [], m_importance = 3, m_created_at = 0, m_updated_at = 0, m_ttl = None,
        m_expires_at = None, m_dedupe_hash = ''h''\<rparr>,
       \<lparr>m_id = ''m2'', m_project_id = ''other'', m_summary = ''foo'', m_text = ''y'', m_tags = [],
        m_paths = [], m_importance = 3, m_created_at = 0, m_updated_at = 0, m_ttl = None,
        m_expires_at = None, m_dedupe_hash = ''h''\<rparr>] [''m1'', ''m2''] ''m2'' = Some None"
proof -
  let ?fts = "(\<lambda>expr. Inr (\<lambda>row. Some (- 1, ''-''))) :: fts_index"
  let ?row1 = "\<lparr>m_id = ''m1'', m_project_id = ''p'', m_summary = ''foo'', m_text = ''x'', m_tags = [],
        m_paths = [], m_importance = 3, m_created_at = 0, m_updated_at = 0, m_ttl = None,
        m_expires_at = None, m_dedupe_hash = ''h''\<rparr>"
  let ?row2 = "\<lparr>m_id = ''m2'', m_project_id = ''other'', m_summary = ''foo'', m_text = ''y'', m_tags = [],
        m_paths = [], m_importance = 3, m_created_at = 0, m_updated_at = 0, m_ttl = None,
        m_expires_at = None, m_dedupe_hash = ''h''\<rparr>"
  let ?db = "[?row1, ?row2]"
  let ?params = "\<lparr>s_q = ''foo'', s_k = None, s_require_path_match = False, s_tags = None,
       s_include_expired = False\<rparr>"
  let ?rp = "\<lparr>rp_k = None, rp_path_prefix = None, rp_include_expired = False\<rparr>"
  let ?m1 = "\<lparr>m_id = ''m1'', m_project_id = ''p'', m_summary = ''foo'', m_text = ''x'',
               m_tags = [], m_paths = [], m_importance = 3, m_created_at = 0,
               m_updated_at = 0, m_ttl = None, m_expires_at = None\<rparr>"
  let ?r1 = "\<lparr>sr_memory = ?m1, sr_score = 1, sr_snippet = ''-''\<rparr>"
  have x: "executeSearch ?fts ''p'' 0 ?db ?params = Inr [?r1]"
    by (simp add: executeSearch_def Let_def split_ws_def is_space_def or_default_def
          not_expired_def sql_limit_def rowToMemory_def)
  have s: "search ?fts ''p'' 0 ?db ?params = Inr [?r1]"
    by (simp add: search_def x try_stage_def)
  have r: "getRecent ''p'' 0 ?db ?rp = [?m1]"
    by (simp add: getRecent_def Let_def or_default_def not_expired_def sql_limit_def rowToMemory_def)
  have g2: "get ''p'' ?db ''m2'' \<noteq> Some (rowToMemory ?row2)"
    using reads_project_isolated [of ?fts "''p''" 0 ?db ?params ?rp "''m2''" "[''m1'', ''m2'']"]
    by (auto simp: rowToMemory_def)
  have g3: "get ''p'' ?db ''m2'' = None"
    by (simp add: get_def)
  have m2: "getMultiple ''p'' ?db [''m1'', ''m2''] ''m2'' = Some None"
    by (simp add: getMultiple_def Let_def rowToMemory_def)
  from s r g2 g3 m2 show ?thesis by simp
qed

subsection \<open>Concept Graph Store: saving in the enhanced store\<close>

lemma addRelationships_concepts:
  "addRelationships fk db i ids t = Inr db' \<Longrightarrow> concepts db' = concepts db"
  by (induction fk db i ids t rule: addRelationships.induct) (auto split: if_splits)

lemma discover_loop_concepts:
  "discover_loop fk db i ts others = Inr db' \<Longrightarrow> concepts db' = concepts db"
proof (induction fk db i ts others rule: discover_loop.induct)
  case (1 fk db conceptId conceptTags)
  then show ?case by simp
next
  case (2 fk db conceptId conceptTags other others)
  show ?case
  proof (cases "tag_overlap conceptTags (c_tags other) > 0
         \<and> overlap_ratio conceptTags (c_tags other) > 0.3")
    case True
    then obtain db1 where a: "addRelationships fk db conceptId [c_id other] ''related'' = Inr db1"
      and l: "discover_loop fk db1 conceptId conceptTags others = Inr db'"
      using "2.prems" by (auto split: sum.splits)
    from "2.IH"(1) [OF True a l] addRelationships_concepts [OF a] show ?thesis by simp
  next
    case False
    then have "discover_loop fk db conceptId conceptTags others = Inr db'"
      using "2.prems" by auto
    from "2.IH"(2) [OF False this] show ?thesis .
  qed
qed

lemma new_concept_fields [simp]:
  "c_id (new_concept now ident params) = ident"
  "c_usage_count (new_concept now ident params) = 0"
  "c_last_used (new_concept now ident params) = None"
  "c_tags (new_concept now ident params) = (case cp_tags params of None \<Rightarrow> [] | Some t \<Rightarrow> t)"
  by (simp_all add: new_concept_def)

lemma replace_concept_concepts:
  "replace_concept fk db row = Inr db1 \<Longrightarrow>
     concepts db1 = filter (\<lambda>r. c_id r \<noteq> c_id row) (concepts db) @ [row]"
  by (auto simp: replace_concept_def Let_def split: if_splits)

lemma enhanced_save_steps:
  assumes "enhanced_save fk now rnd db params = Inr (db', c)"
  obtains db1 db2 where
    "c = new_concept now (generateConceptId (cp_title params) rnd) params"
    "replace_concept fk db c = Inr db1"
    "(case cp_relatedTo params of None \<Rightarrow> Inr db1
      | Some ids \<Rightarrow> addRelationships fk db1 (c_id c) ids ''related'') = Inr db2"
    "autoDiscoverRelated fk db2 (c_id c) (c_tags c) = Inr db'"
proof -
  define ident where "ident = generateConceptId (cp_title params) rnd"
  define row where "row = new_concept now ident params"
  have i: "c_id row = ident" by (simp add: row_def)
  note unfold = enhanced_save_def Let_def ident_def [symmetric] row_def [symmetric]
  from assms obtain db1 where 1: "replace_concept fk db row = Inr db1"
    by (cases "replace_concept fk db row") (simp_all add: unfold)
  define a where "a = (case cp_relatedTo params of None \<Rightarrow> Inr db1
      | Some ids \<Rightarrow> addRelationships fk db1 ident ids ''related'')"
  from assms 1 obtain db2 where 2: "a = Inr db2"
    by (cases a) (simp_all add: unfold a_def [symmetric])
  from assms 1 2 have 3: "autoDiscoverRelated fk db2 ident (c_tags row) = Inr db' \<and> c = row"
    by (cases "autoDiscoverRelated fk db2 ident (c_tags row)")
       (simp_all add: unfold a_def [symmetric])
  have c: "c = row" using 3 by simp
  have ci: "c_id c = ident" using c i by simp
  show thesis
  proof (rule that [of db1 db2])
    show "c = new_concept now (generateConceptId (cp_title params) rnd) params"
      using c by (simp only: row_def ident_def)
    show "replace_concept fk db c = Inr db1"
      using 1 by (simp only: c)
    show "(case cp_relatedTo params of None \<Rightarrow> Inr db1
      | Some ids \<Rightarrow> addRelationships fk db1 (c_id c) ids ''related'') = Inr db2"
      using 2 by (simp only: a_def ci)
    show "autoDiscoverRelated fk db2 (c_id c) (c_tags c) = Inr db'"
      using 3 i by (simp add: c)
  qed
qed

lemma enhanced_save_concepts:
  assumes "enhanced_save fk now rnd db params = Inr (db', c)"
  shows "concepts db' = filter (\<lambda>r. c_id r \<noteq> c_id c) (concepts db) @ [c]
         \<and> c_id c = generateConceptId (cp_title params) rnd
         \<and> c_usage_count c = 0 \<and> c_last_used c = None
         \<and> c_tags c = (case cp_tags params of None \<Rightarrow> [] | Some t \<Rightarrow> t)"
proof -
  from enhanced_save_steps [OF assms] obtain db1 db2 where
    c: "c = new_concept now (generateConceptId (cp_title params) rnd) params"
    and r: "replace_concept fk db c = Inr db1"
    and a: "(case cp_relatedTo params of None \<Rightarrow> Inr db1
             | Some ids \<Rightarrow> addRelationships fk db1 (c_id c) ids ''related'') = Inr db2"
    and d: "autoDiscoverRelated fk db2 (c_id c) (c_tags c) = Inr db'"
    by blast
  have 1: "concepts db1 = filter (\<lambda>r. c_id r \<noteq> c_id c) (concepts db) @ [c]"
    using r by (rule replace_concept_concepts)
  have 2: "concepts db2 = concepts db1"
    using a addRelationships_concepts by (cases "cp_relatedTo params") auto
  have 3: "concepts db' = concepts db2"
    using d discover_loop_concepts by (simp add: autoDiscoverRelated_def)
  from 1 2 3 c show ?thesis by simp
qed

text \<open>
  Claim C10. The enhanced store's \<open>save\<close> always generates the id (from the title and
  random bytes). When the id it generates is the id of a stored concept and the call
  succeeds, the table holds exactly one row under that id afterwards, the row just written,
  with \<open>usage_count\<close> 0 and \<open>last_used\<close> empty: what \<open>trackUsage\<close> had accumulated on
  the replaced row is gone.
\<close>

theorem enhanced_save_resets_usage:
  assumes "enhanced_save fk now rnd db params = Inr (db', c)"
      and "generateConceptId (cp_title params) rnd \<in> set (map c_id (concepts db))"
  shows "c_id c = generateConceptId (cp_title params) rnd
         \<and> filter (\<lambda>row. c_id row = c_id c) (concepts db') = [c]
         \<and> c_usage_count c = 0 \<and> c_last_used c = None"
proof -
  note s = enhanced_save_concepts [OF assms(1)]
  have "filter (\<lambda>row. c_id row = c_id c) (filter (\<lambda>r. c_id r \<noteq> c_id c) (concepts db)) = []"
    by (induction "concepts db") (auto simp: filter_empty_conv)
  then have "filter (\<lambda>row. c_id row = c_id c) (concepts db') = [c]"
    using s by simp
  with s show ?thesis by simp
qed

lemma related_edge_step:
  assumes "related_edge db i' j"
  shows "related_edge
           (db\<lparr>concept_relationships :=
                 filter (\<lambda>r. \<not> (r_concept_id r = i \<and> r_related_id r = k))
                   (concept_relationships db)
                 @ [\<lparr>r_concept_id = i, r_related_id = k,
                     r_relationship_type = ''related'', r_strength = 0.5\<rparr>]\<rparr>) i' j"
proof -
  from assms obtain r where r: "r \<in> set (concept_relationships db)" "r_concept_id r = i'"
    "r_related_id r = j" "r_relationship_type r = ''related''"
    unfolding related_edge_def by blast
  show ?thesis
  proof (cases "i' = i \<and> j = k")
    case True
    then show ?thesis by (simp add: related_edge_def)
  next
    case False
    then have "r \<in> set (filter (\<lambda>r. \<not> (r_concept_id r = i \<and> r_related_id r = k))
                   (concept_relationships db))"
      using r by auto
    then show ?thesis using r unfolding related_edge_def by auto
  qed
qed

lemma addRelationships_edge_kept:
  "addRelationships fk db i ids ''related'' = Inr db' \<Longrightarrow> related_edge db i' j
     \<Longrightarrow> related_edge db' i' j"
proof (induction ids arbitrary: db)
  case Nil
  then show ?case by simp
next
  case (Cons k ids)
  let ?db1 = "db\<lparr>concept_relationships :=
                 filter (\<lambda>r. \<not> (r_concept_id r = i \<and> r_related_id r = k))
                   (concept_relationships db)
                 @ [\<lparr>r_concept_id = i, r_related_id = k,
                     r_relationship_type = ''related'', r_strength = 0.5\<rparr>]\<rparr>"
  from Cons.prems(1) have "addRelationships fk ?db1 i ids ''related'' = Inr db'"
    by (simp split: if_splits)
  moreover have "related_edge ?db1 i' j" using Cons.prems(2) by (rule related_edge_step)
  ultimately show ?case by (rule Cons.IH)
qed

lemma addRelationships_edge_new:
  "addRelationships fk db i [j] ''related'' = Inr db' \<Longrightarrow> related_edge db' i j"
  by (auto simp: related_edge_def split: if_splits)

lemma ratio_overlap: "overlap_ratio a b > 0.3 \<Longrightarrow> tag_overlap a b > 0"
  by (cases "tag_overlap a b = 0") (simp_all add: overlap_ratio_def)

lemma discover_loop_kept:
  "discover_loop fk db i ts others = Inr db' \<Longrightarrow> related_edge db i' j
     \<Longrightarrow> related_edge db' i' j"
proof (induction others arbitrary: db)
  case Nil
  then show ?case by simp
next
  case (Cons other others)
  show ?case
  proof (cases "tag_overlap ts (c_tags other) > 0 \<and> overlap_ratio ts (c_tags other) > 0.3")
    case True
    then obtain db1 where a: "addRelationships fk db i [c_id other] ''related'' = Inr db1"
      and l: "discover_loop fk db1 i ts others = Inr db'"
      using Cons.prems(1) by (auto split: sum.splits)
    have "related_edge db1 i' j"
      using a Cons.prems(2) by (rule addRelationships_edge_kept)
    with l show ?thesis by (rule Cons.IH)
  next
    case False
    then have "discover_loop fk db i ts others = Inr db'"
      using Cons.prems(1) by auto
    then show ?thesis using Cons.prems(2) by (rule Cons.IH)
  qed
qed

lemma discover_loop_edges:
  "discover_loop fk db i ts others = Inr db' \<Longrightarrow> other \<in> set others
     \<Longrightarrow> overlap_ratio ts (c_tags other) > 0.3 \<Longrightarrow> related_edge db' i (c_id other)"
proof (induction others arbitrary: db)
  case Nil
  then show ?case by simp
next
  case (Cons x others)
  show ?case
  proof (cases "tag_overlap ts (c_tags x) > 0 \<and> overlap_ratio ts (c_tags x) > 0.3")
    case True
    then obtain db1 where a: "addRelationships fk db i [c_id x] ''related'' = Inr db1"
      and l: "discover_loop fk db1 i ts others = Inr db'"
      using Cons.prems(1) by (auto split: sum.splits)
    show ?thesis
    proof (cases "other \<in> set others")
      case True
      with l Cons.prems(3) show ?thesis by (intro Cons.IH)
    next
      case False
      then have "other = x" using Cons.prems(2) by simp
      moreover have "related_edge db1 i (c_id x)" using a by (rule addRelationships_edge_new)
      ultimately show ?thesis using discover_loop_kept [OF l] by simp
    qed
  next
    case False
    then have l: "discover_loop fk db i ts others = Inr db'"
      using Cons.prems(1) by auto
    from False Cons.prems(3) have "other \<noteq> x"
      using ratio_overlap by blast
    then have "other \<in> set others" using Cons.prems(2) by simp
    with l Cons.prems(3) show ?thesis by (intro Cons.IH)
  qed
qed

text \<open>
  Claim C7, as amended. After a successful \<open>save\<close> of the enhanced store, for each of the
  first 20 other stored concepts (the scan of \<open>autoDiscoverRelated\<close> reads at most 20
  rows) whose tag overlap ratio with the saved concept exceeds 0.3, a \<open>related\<close> edge from
  the saved concept to that concept is stored. The ratio is the number of the saved
  concept's tags found among the other's, divided by the larger number of tags.
\<close>

theorem enhanced_save_related_edges:
  assumes "enhanced_save fk now rnd db params = Inr (db', c)"
      and "other \<in> set (take 20 (filter (\<lambda>row. c_id row \<noteq> c_id c) (concepts db)))"
      and "overlap_ratio (c_tags c) (c_tags other) > 0.3"
  shows "related_edge db' (c_id c) (c_id other)"
proof -
  from enhanced_save_steps [OF assms(1)] obtain db1 db2 where
    r: "replace_concept fk db c = Inr db1"
    and a: "(case cp_relatedTo params of None \<Rightarrow> Inr db1
             | Some ids \<Rightarrow> addRelationships fk db1 (c_id c) ids ''related'') = Inr db2"
    and d: "autoDiscoverRelated fk db2 (c_id c) (c_tags c) = Inr db'"
    by blast
  have "concepts db2 = concepts db1"
    using a addRelationships_concepts by (cases "cp_relatedTo params") auto
  then have "concepts db2 = filter (\<lambda>r. c_id r \<noteq> c_id c) (concepts db) @ [c]"
    using replace_concept_concepts [OF r] by simp
  then have "filter (\<lambda>row. c_id row \<noteq> c_id c) (concepts db2)
             = filter (\<lambda>row. c_id row \<noteq> c_id c) (concepts db)"
    by simp
  then have "discover_loop fk db2 (c_id c) (c_tags c)
               (take 20 (filter (\<lambda>row. c_id row \<noteq> c_id c) (concepts db))) = Inr db'"
    using d by (simp add: autoDiscoverRelated_def)
  from discover_loop_edges [OF this assms(2,3)] show ?thesis .
qed

text \<open>The theorem at a store of one concept that shares the saved concept's only tag.\<close>

theorem enhanced_save_related_edges_witness:
  "enhanced_save True 1000 ''cd''
     \<lparr>concepts = [sample_concept ''c01''], concept_relationships = [],
      project_allowlists = []\<rparr>
     \<lparr>cp_title = ''OAuth'', cp_body = ''flow'', cp_tags = Some [''auth''],
      cp_importance = None, cp_source = None, cp_relatedTo = None\<rparr>
   = Inr (\<lparr>concepts =
             [sample_concept ''c01'',
              new_concept 1000 ''oauth-cd''
                \<lparr>cp_title = ''OAuth'', cp_body = ''flow'', cp_tags = Some [''auth''],
                 cp_importance = None, cp_source = None, cp_relatedTo = None\<rparr>],
           concept_relationships = [sample_edge ''oauth-cd'' ''c01''],
           project_allowlists = []\<rparr>,
          new_concept 1000 ''oauth-cd''
            \<lparr>cp_title = ''OAuth'', cp_body = ''flow'', cp_tags = Some [''auth''],
             cp_importance = None, cp_source = None, cp_relatedTo = None\<rparr>)
   \<and> related_edge
        \<lparr>concepts =
             [sample_concept ''c01'',
              new_concept 1000 ''oauth-cd''
                \<lparr>cp_title = ''OAuth'', cp_body = ''flow'', cp_tags = Some [''auth''],
                 cp_importance = None, cp_source = None, cp_relatedTo = None\<rparr>],
           concept_relationships = [sample_edge ''oauth-cd'' ''c01''],
           project_allowlists = []\<rparr>
        ''oauth-cd'' ''c01''"
proof -
  let ?db = "\<lparr>concepts = [sample_concept ''c01''], concept_relationships = [],
      project_allowlists = []\<rparr>"
  let ?p = "\<lparr>cp_title = ''OAuth'', cp_body = ''flow'', cp_tags = Some [''auth''],
      cp_importance = None, cp_source = None, cp_relatedTo = None\<rparr>"
  let ?c = "new_concept 1000 ''oauth-cd'' ?p"
  let ?db' = "\<lparr>concepts = [sample_concept ''c01'', ?c],
           concept_relationships = [sample_edge ''oauth-cd'' ''c01''],
           project_allowlists = []\<rparr>"
  have s: "enhanced_save True 1000 ''cd'' ?db ?p = Inr (?db', ?c)"
    by code_simp
  have m: "sample_concept ''c01'' \<in> set (take 20 (filter (\<lambda>row. c_id row \<noteq> c_id ?c) (concepts ?db)))"
    by code_simp
  have r: "overlap_ratio (c_tags ?c) (c_tags (sample_concept ''c01'')) > 0.3"
    by (simp add: overlap_ratio_def tag_overlap_def sample_concept_def)
  have i: "c_id ?c = ''oauth-cd''" "c_id (sample_concept ''c01'') = ''c01''"
    by (simp_all add: sample_concept_def)
  from enhanced_save_related_edges [OF s m r] have "related_edge ?db' ''oauth-cd'' ''c01''"
    by (simp only: i)
  with s show ?thesis by blast
qed

text \<open>
  Claim C7 as stated fails at a store of 21 concepts that all share the saved concept's only
  tag: the ratio with the last one is 1, and no edge to it is stored, since the scan stops
  after 20 rows; and the edges stored carry the strength 0.5, not the ratio 1.
\<close>

theorem enhanced_save_related_edges_counterexample:
  "enhanced_save True 1000 ''cd''
     \<lparr>concepts = map sample_concept
        [''c01'', ''c02'', ''c03'', ''c04'', ''c05'', ''c06'', ''c07'', ''c08'', ''c09'', ''c10'',
         ''c11'', ''c12'', ''c13'', ''c14'', ''c15'', ''c16'', ''c17'', ''c18'', ''c19'', ''c20'',
         ''c21''],
      concept_relationships = [], project_allowlists = []\<rparr>
     \<lparr>cp_title = ''OAuth'', cp_body = ''flow'', cp_tags = Some [''auth''],
      cp_importance = None, cp_source = None, cp_relatedTo = None\<rparr>
   = Inr (\<lparr>concepts = map sample_concept
             [''c01'', ''c02'', ''c03'', ''c04'', ''c05'', ''c06'', ''c07'', ''c08'', ''c09'',
              ''c10'', ''c11'', ''c12'', ''c13'', ''c14'', ''c15'', ''c16'', ''c17'', ''c18'',
              ''c19'', ''c20'', ''c21'']
             @ [new_concept 1000 ''oauth-cd''
                  \<lparr>cp_title = ''OAuth'', cp_body = ''flow'', cp_tags = Some [''auth''],
                   cp_importance = None, cp_source = None, cp_relatedTo = None\<rparr>],
           concept_relationships = map (sample_edge ''oauth-cd'')
             [''c01'', ''c02'', ''c03'', ''c04'', ''c05'', ''c06'', ''c07'', ''c08'', ''c09'',
              ''c10'', ''c11'', ''c12'', ''c13'', ''c14'', ''c15'', ''c16'', ''c17'', ''c18'',
              ''c19'', ''c20''],
           project_allowlists = []\<rparr>,
          new_concept 1000 ''oauth-cd''
            \<lparr>cp_title = ''OAuth'', cp_body = ''flow'', cp_tags = Some [''auth''],
             cp_importance = None, cp_source = None, cp_relatedTo = None\<rparr>)
   \<and> overlap_ratio [''auth''] (c_tags (sample_concept ''c21'')) = 1
   \<and> r_strength (sample_edge ''oauth-cd'' ''c01'') = 1 / 2"
proof -
  have "overlap_ratio [''auth''] (c_tags (sample_concept ''c21'')) = 1"
    by (simp add: overlap_ratio_def tag_overlap_def sample_concept_def)
  moreover have "r_strength (sample_edge ''oauth-cd'' ''c01'') = 1 / 2"
    by (simp add: sample_edge_def)
  moreover have "enhanced_save True 1000 ''cd''
     \<lparr>concepts = map sample_concept
        [''c01'', ''c02'', ''c03'', ''c04'', ''c05'', ''c06'', ''c07'', ''c08'', ''c09'', ''c10'',
         ''c11'', ''c12'', ''c13'', ''c14'', ''c15'', ''c16'', ''c17'', ''c18'', ''c19'', ''c20'',
         ''c21''],
      concept_relationships = [], project_allowlists = []\<rparr>
     \<lparr>cp_title = ''OAuth'', cp_body = ''flow'', cp_tags = Some [''auth''],
      cp_importance = None, cp_source = None, cp_relatedTo = None\<rparr>
   = Inr (\<lparr>concepts = map sample_concept
             [''c01'', ''c02'', ''c03'', ''c04'', ''c05'', ''c06'', ''c07'', ''c08'', ''c09'',
              ''c10'', ''c11'', ''c12'', ''c13'', ''c14'', ''c15'', ''c16'', ''c17'', ''c18'',
              ''c19'', ''c20'', ''c21'']
             @ [new_concept 1000 ''oauth-cd''
                  \<lparr>cp_title = ''OAuth'', cp_body = ''flow'', cp_tags = Some [''auth''],
                   cp_importance = None, cp_source = None, cp_relatedTo = None\<rparr>],
           concept_relationships = map (sample_edge ''oauth-cd'')
             [''c01'', ''c02'', ''c03'', ''c04'', ''c05'', ''c06'', ''c07'', ''c08'', ''c09'',
              ''c10'', ''c11'', ''c12'', ''c13'', ''c14'', ''c15'', ''c16'', ''c17'', ''c18'',
              ''c19'', ''c20''],
           project_allowlists = []\<rparr>,
          new_concept 1000 ''oauth-cd''
            \<lparr>cp_title = ''OAuth'', cp_body = ''flow'', cp_tags = Some [''auth''],
             cp_importance = None, cp_source = None, cp_relatedTo = None\<rparr>)"
    by code_simp
  ultimately show ?thesis by blast
qed

text \<open>
  The theorem at a concept whose usage a search has counted once, saved again under the
  same title with random bytes that give the same id.
\<close>

theorem enhanced_save_resets_usage_witness:
  "map c_usage_count
     (concepts (trackUsage 5 ''oauth-cd''
        \<lparr>concepts = [sample_concept ''oauth-cd''], concept_relationships = [],
         project_allowlists = []\<rparr>)) = [1]
   \<and> enhanced_save True 1000 ''cd''
        (trackUsage 5 ''oauth-cd''
           \<lparr>concepts = [sample_concept ''oauth-cd''], concept_relationships = [],
            project_allowlists = []\<rparr>)
        \<lparr>cp_title = ''OAuth'', cp_body = ''flow'', cp_tags = Some [''auth''],
         cp_importance = None, cp_source = None, cp_relatedTo = None\<rparr>
      = Inr (\<lparr>concepts =
                [new_concept 1000 ''oauth-cd''
                   \<lparr>cp_title = ''OAuth'', cp_body = ''flow'', cp_tags = Some [''auth''],
                    cp_importance = None, cp_source = None, cp_relatedTo = None\<rparr>],
              concept_relationships = [], project_allowlists = []\<rparr>,
             new_concept 1000 ''oauth-cd''
               \<lparr>cp_title = ''OAuth'', cp_body = ''flow'', cp_tags = Some [''auth''],
                cp_importance = None, cp_source = None, cp_relatedTo = None\<rparr>)
   \<and> c_usage_count (new_concept 1000 ''oauth-cd''
               \<lparr>cp_title = ''OAuth'', cp_body = ''flow'', cp_tags = Some [''auth''],
                cp_importance = None, cp_source = None, cp_relatedTo = None\<rparr>) = 0
   \<and> c_last_used (new_concept 1000 ''oauth-cd''
               \<lparr>cp_title = ''OAuth'', cp_body = ''flow'', cp_tags = Some [''auth''],
                cp_importance = None, cp_source = None, cp_relatedTo = None\<rparr>) = None"
proof -
  let ?db = "trackUsage 5 ''oauth-cd''
           \<lparr>concepts = [sample_concept ''oauth-cd''], concept_relationships = [],
            project_allowlists = []\<rparr>"
  let ?p = "\<lparr>cp_title = ''OAuth'', cp_body = ''flow'', cp_tags = Some [''auth''],
      cp_importance = None, cp_source = None, cp_relatedTo = None\<rparr>"
  let ?c = "new_concept 1000 ''oauth-cd'' ?p"
  let ?db' = "\<lparr>concepts = [?c], concept_relationships = [], project_allowlists = []\<rparr>"
  have u: "map c_usage_count (concepts ?db) = [1]"
    by (simp add: trackUsage_def sample_concept_def)
  have s: "enhanced_save True 1000 ''cd'' ?db ?p = Inr (?db', ?c)"
    by code_simp
  have m: "generateConceptId (cp_title ?p) ''cd'' \<in> set (map c_id (concepts ?db))"
    by code_simp
  from enhanced_save_resets_usage [OF s m]
  have "c_usage_count ?c = 0 \<and> c_last_used ?c = None" by blast
  with u s show ?thesis by blast
qed

subsection \<open>Concept Graph Store: wildcard search and the fallback of the tool\<close>

lemma map_insert_by:
  assumes "\<And>a b. lt (g a) (g b) = lt' a b"
  shows "insert_by lt (g x) (map g xs) = map g (insert_by lt' x xs)"
  by (induction xs) (simp_all add: assms)

lemma map_sort_by:
  assumes "\<And>a b. lt (g a) (g b) = lt' a b"
  shows "sort_by lt (map g xs) = map g (sort_by lt' xs)"
  by (induction xs) (simp_all add: map_insert_by [of lt g lt', OF assms])

lemma map_sql_limit: "map f (sql_limit n xs) = sql_limit n (map f xs)"
  by (simp add: sql_limit_def take_map)

lemma sql_limit_nonempty: "n \<noteq> 0 \<Longrightarrow> xs \<noteq> [] \<Longrightarrow> sql_limit n xs \<noteq> []"
  by (cases xs) (auto simp: sql_limit_def)

lemma or_default_nonzero: "d \<noteq> 0 \<Longrightarrow> or_default x d \<noteq> 0"
  by (simp add: or_default_def split: option.splits)

lemma sort_by_nonempty: "xs \<noteq> [] \<Longrightarrow> sort_by lt xs \<noteq> []"
  using set_sort_by [of lt xs] by (metis set_empty)

lemma concat_map_single: "concat (map (\<lambda>x. [f x]) xs) = map f xs"
  by (induction xs) simp_all

lemma filter_all: "filter (\<lambda>(row, _). True) xs = xs"
  by (induction xs) auto

lemma enhanced_search_wildcard:
  assumes "es_q p = [] \<or> es_q p = ''*''" and "es_projectId p = None"
      and "\<not> es_includeRelated p"
  shows "\<exists>db' rs. enhanced_search fts now db p = Inr (db', rs)
           \<and> map er_concept rs
               = sql_limit (or_default (es_k p) 10) (sort_by (by_usage now) (concepts db))"
proof -
  let ?g = "\<lambda>row. (row, usage_score now row, [] :: string)"
  let ?mk = "\<lambda>(row, smart_score, snip).
                \<lparr>er_concept = row, er_score = (if smart_score = 0 then 1 else smart_score),
                 er_snippet = snip\<rparr>"
  let ?rows = "sql_limit (or_default (es_k p) 10) (sort_by by_smart_score (map ?g (concepts db)))"
  have q: "(if es_q p = [] then ''*'' else es_q p) = ''*''" using assms(1) by auto
  have "\<exists>db'. enhanced_search fts now db p = Inr (db', map ?mk ?rows)"
    using assms(2,3)
    by (simp add: enhanced_search_def Let_def q concat_map_single filter_all)
  moreover have "sort_by by_smart_score (map ?g (concepts db))
                   = map ?g (sort_by (by_usage now) (concepts db))"
    by (rule map_sort_by) (simp add: by_smart_score_def by_usage_def)
  then have "map er_concept (map ?mk ?rows)
               = sql_limit (or_default (es_k p) 10) (sort_by (by_usage now) (concepts db))"
    by (simp add: map_sql_limit [symmetric] comp_def)
  ultimately show ?thesis by blast
qed

lemma concept_store_search_wildcard:
  assumes "normalizeSearchQuery (cs_q p) = ''*''" and "cs_projectId p = None"
      and "cs_allowlist p = None \<or> cs_allowlist p = Some []"
  shows "\<exists>rs. concept_store_search fts store p = Inr rs
           \<and> map cr_concept rs
               = sql_limit (or_default (cs_k p) 10) (sort_by by_importance_created (bs_concepts store))"
proof -
  let ?g = "\<lambda>row. (row, 1 :: real, [] :: string)"
  let ?mk = "\<lambda>(row, fts_score, snip).
                \<lparr>cr_concept = row, cr_score = - fts_score, cr_snippet = snip\<rparr>"
  let ?rows = "sql_limit (or_default (cs_k p) 10) (sort_by by_importance (map ?g (bs_concepts store)))"
  have "concept_store_search fts store p = Inr (map ?mk ?rows)"
    using assms
    by (auto simp: concept_store_search_def Let_def concat_map_single filter_all)
  moreover have "sort_by by_importance (map ?g (bs_concepts store))
                   = map ?g (sort_by by_importance_created (bs_concepts store))"
    by (rule map_sort_by) (simp add: by_importance_def by_importance_created_def)
  then have "map cr_concept (map ?mk ?rows)
               = sql_limit (or_default (cs_k p) 10) (sort_by by_importance_created (bs_concepts store))"
    by (simp add: map_sql_limit [symmetric] comp_def)
  ultimately show ?thesis by blast
qed

lemma tool_unfold:
  "concept_search_tool fts (Some store) args =
     (case concept_store_search fts store
             \<lparr>cs_q = (if trim (case ca_q args of None \<Rightarrow> ''*'' | Some s \<Rightarrow> if s = [] then ''*'' else s) = []
                      then ''*''
                      else trim (case ca_q args of None \<Rightarrow> ''*'' | Some s \<Rightarrow> if s = [] then ''*'' else s)),
              cs_k = Some (or_default (ca_k args) 10), cs_allowlist = ca_allowlist args,
              cs_projectId = None\<rparr> of
        Inl e \<Rightarrow> Inl e
      | Inr found \<Rightarrow>
          if found = [] \<and> (case ca_q args of None \<Rightarrow> ''*'' | Some s \<Rightarrow> if s = [] then ''*'' else s) \<noteq> ''*''
          then concept_store_search fts store
                 \<lparr>cs_q = ''*'', cs_k = Some (or_default (ca_k args) 10),
                  cs_allowlist = ca_allowlist args, cs_projectId = None\<rparr>
          else Inr found)"
  by (simp add: concept_search_tool_def Let_def)

lemma normalize_star: "normalizeSearchQuery ''*'' = ''*''"
  by (simp add: normalizeSearchQuery_def trim_def is_space_def)

lemma wildcard_nonempty:
  assumes "normalizeSearchQuery (cs_q p) = ''*''" and "cs_projectId p = None"
      and "cs_allowlist p = None \<or> cs_allowlist p = Some []"
      and "concept_store_search fts store p = Inr rs" and "bs_concepts store \<noteq> []"
  shows "rs \<noteq> []"
proof -
  from concept_store_search_wildcard [OF assms(1-3), of fts store] assms(4)
  have "map cr_concept rs
          = sql_limit (or_default (cs_k p) 10) (sort_by by_importance_created (bs_concepts store))"
    by simp
  moreover have "sql_limit (or_default (cs_k p) 10) (sort_by by_importance_created (bs_concepts store)) \<noteq> []"
    using assms(5) by (intro sql_limit_nonempty or_default_nonzero sort_by_nonempty) simp_all
  ultimately show ?thesis by auto
qed

lemma tool_nonempty:
  assumes "ca_allowlist args = None \<or> ca_allowlist args = Some []"
      and "concept_search_tool fts (Some store) args = Inr rs"
      and "bs_concepts store \<noteq> []"
  shows "rs \<noteq> []"
proof -
  define csq where "csq = (case ca_q args of None \<Rightarrow> ''*'' | Some s \<Rightarrow> if s = [] then ''*'' else s)"
  define first where "first = \<lparr>cs_q = (if trim csq = [] then ''*'' else trim csq),
              cs_k = Some (or_default (ca_k args) 10), cs_allowlist = ca_allowlist args,
              cs_projectId = None\<rparr>"
  define star where "star = \<lparr>cs_q = ''*'', cs_k = Some (or_default (ca_k args) 10),
                  cs_allowlist = ca_allowlist args, cs_projectId = None\<rparr>"
  have tool: "concept_search_tool fts (Some store) args =
     (case concept_store_search fts store first of
        Inl e \<Rightarrow> Inl e
      | Inr found \<Rightarrow> if found = [] \<and> csq \<noteq> ''*'' then concept_store_search fts store star
                     else Inr found)"
    by (simp only: tool_unfold csq_def first_def star_def)
  from assms(2) tool obtain found where f: "concept_store_search fts store first = Inr found"
    by (cases "concept_store_search fts store first") simp_all
  have star_ok: "concept_store_search fts store star = Inr rs' \<Longrightarrow> rs' \<noteq> []" for rs'
    using assms(1,3) by (intro wildcard_nonempty [of star fts store rs'])
      (simp_all add: star_def normalize_star)
  show ?thesis
  proof (cases "found = []")
    case False
    then show ?thesis using assms(2) tool f by simp
  next
    case True
    show ?thesis
    proof (cases "csq = ''*''")
      case False
      then have "concept_store_search fts store star = Inr rs"
        using assms(2) tool f True by simp
      then show ?thesis by (rule star_ok)
    next
      case c: True
      then have "first = star" by (simp add: first_def star_def trim_def is_space_def)
      then show ?thesis using f True star_ok by auto
    qed
  qed
qed

lemma tool_rerun:
  assumes "ca_q args = Some query" and "query \<noteq> []" and "query \<noteq> ''*''"
      and "concept_store_search fts store
             \<lparr>cs_q = (if trim query = [] then ''*'' else trim query),
              cs_k = Some (or_default (ca_k args) 10), cs_allowlist = ca_allowlist args,
              cs_projectId = None\<rparr> = Inr []"
  shows "concept_search_tool fts (Some store) args =
           concept_store_search fts store
             \<lparr>cs_q = ''*'', cs_k = Some (or_default (ca_k args) 10),
              cs_allowlist = ca_allowlist args, cs_projectId = None\<rparr>"
proof -
  have csq: "(case ca_q args of None \<Rightarrow> ''*'' | Some s \<Rightarrow> if s = [] then ''*'' else s) = query"
    using assms(1,2) by simp
  show ?thesis
    by (simp only: tool_unfold csq assms(4) sum.case) (simp add: assms(3))
qed

text \<open>
  Claim C8, as amended. With no project or allowlist restriction, an empty or \<open>*\<close>
  query returns the stored concepts, up to the limit, in ranking order: in the enhanced
  store by importance, usage count and recent use (\<open>usage_score\<close>), in the basic store
  by importance and then time of creation. The searches of the stores do not run a query
  again; the \<open>concept_search\<close> tool does: when its query is not \<open>*\<close> and finds
  nothing, its result is that of the \<open>*\<close> query. So a result the tool returns, given no
  allowlist, is not empty when a concept is stored.
\<close>

theorem concept_search_wildcard_ranking:
  "((es_q ep = [] \<or> es_q ep = ''*'') \<and> es_projectId ep = None \<and> \<not> es_includeRelated ep \<longrightarrow>
      (\<exists>db' rs. enhanced_search efts now db ep = Inr (db', rs)
         \<and> map er_concept rs
             = sql_limit (or_default (es_k ep) 10) (sort_by (by_usage now) (concepts db))))
   \<and> (normalizeSearchQuery (cs_q sp) = ''*'' \<and> cs_projectId sp = None \<and> cs_allowlist sp = None \<longrightarrow>
      (\<exists>rs. concept_store_search fts store sp = Inr rs
         \<and> map cr_concept rs
             = sql_limit (or_default (cs_k sp) 10)
                 (sort_by by_importance_created (bs_concepts store))))
   \<and> (\<forall>query. ca_q args = Some query \<and> query \<noteq> [] \<and> query \<noteq> ''*''
         \<and> concept_store_search fts store
             \<lparr>cs_q = (if trim query = [] then ''*'' else trim query),
              cs_k = Some (or_default (ca_k args) 10), cs_allowlist = ca_allowlist args,
              cs_projectId = None\<rparr> = Inr [] \<longrightarrow>
         concept_search_tool fts (Some store) args =
           concept_store_search fts store
             \<lparr>cs_q = ''*'', cs_k = Some (or_default (ca_k args) 10),
              cs_allowlist = ca_allowlist args, cs_projectId = None\<rparr>)
   \<and> (ca_allowlist args = None \<and> bs_concepts store \<noteq> [] \<longrightarrow>
        (\<forall>rs. concept_search_tool fts (Some store) args = Inr rs \<longrightarrow> rs \<noteq> []))"
proof (intro conjI impI allI)
  assume "(es_q ep = [] \<or> es_q ep = ''*'') \<and> es_projectId ep = None \<and> \<not> es_includeRelated ep"
  then show "\<exists>db' rs. enhanced_search efts now db ep = Inr (db', rs)
         \<and> map er_concept rs
             = sql_limit (or_default (es_k ep) 10) (sort_by (by_usage now) (concepts db))"
    using enhanced_search_wildcard [of ep efts now db] by blast
next
  assume "normalizeSearchQuery (cs_q sp) = ''*'' \<and> cs_projectId sp = None \<and> cs_allowlist sp = None"
  then show "\<exists>rs. concept_store_search fts store sp = Inr rs
         \<and> map cr_concept rs
             = sql_limit (or_default (cs_k sp) 10)
                 (sort_by by_importance_created (bs_concepts store))"
    using concept_store_search_wildcard [of sp fts store] by blast
next
  fix query
  assume "ca_q args = Some query \<and> query \<noteq> [] \<and> query \<noteq> ''*''
         \<and> concept_store_search fts store
             \<lparr>cs_q = (if trim query = [] then ''*'' else trim query),
              cs_k = Some (or_default (ca_k args) 10), cs_allowlist = ca_allowlist args,
              cs_projectId = None\<rparr> = Inr []"
  then show "concept_search_tool fts (Some store) args =
           concept_store_search fts store
             \<lparr>cs_q = ''*'', cs_k = Some (or_default (ca_k args) 10),
              cs_allowlist = ca_allowlist args, cs_projectId = None\<rparr>"
    using tool_rerun [of args query fts store] by blast
next
  fix rs
  assume "ca_allowlist args = None \<and> bs_concepts store \<noteq> []"
    and "concept_search_tool fts (Some store) args = Inr rs"
  then show "rs \<noteq> []"
    using tool_nonempty [of args fts store rs] by blast
qed

text \<open>
  The theorem at stores of one concept and an index that matches nothing: the empty query
  and \<open>*\<close> return the concept, and so does the tool for the query \<open>zzz\<close>, which
  finds nothing by itself.
\<close>

theorem concept_search_wildcard_ranking_witness:
  "(\<exists>db' rs.
      enhanced_search (\<lambda>expr. Inr (\<lambda>row. None)) 0
        \<lparr>concepts = [sample_concept ''c01''], concept_relationships = [],
         project_allowlists = []\<rparr>
        \<lparr>es_q = [], es_k = None, es_allowlist = None, es_projectId = None,
         es_includeRelated = False, es_boostRecent = False\<rparr> = Inr (db', rs)
      \<and> map er_concept rs = [sample_concept ''c01''])
   \<and> (\<exists>rs.
      concept_store_search (\<lambda>expr. Inr (\<lambda>row. None))
        \<lparr>bs_concepts = [sample_basic_concept ''c01''], bs_allowlists = []\<rparr>
        \<lparr>cs_q = ''*'', cs_k = None, cs_allowlist = None, cs_projectId = None\<rparr> = Inr rs
      \<and> map cr_concept rs = [sample_basic_concept ''c01''])
   \<and> concept_store_search (\<lambda>expr. Inr (\<lambda>row. None))
        \<lparr>bs_concepts = [sample_basic_concept ''c01''], bs_allowlists = []\<rparr>
        \<lparr>cs_q = ''zzz'', cs_k = Some 10, cs_allowlist = None, cs_projectId = None\<rparr> = Inr []
   \<and> concept_search_tool (\<lambda>expr. Inr (\<lambda>row. None))
        (Some \<lparr>bs_concepts = [sample_basic_concept ''c01''], bs_allowlists = []\<rparr>)
        \<lparr>ca_q = Some ''zzz'', ca_k = None, ca_allowlist = None\<rparr>
      = Inr [\<lparr>cr_concept = sample_basic_concept ''c01'', cr_score = - 1, cr_snippet = []\<rparr>]"
proof -
  let ?efts = "(\<lambda>expr. Inr (\<lambda>row. None)) :: concept_row match_index"
  let ?fts = "(\<lambda>expr. Inr (\<lambda>row. None)) :: concept match_index"
  let ?db = "\<lparr>concepts = [sample_concept ''c01''], concept_relationships = [],
         project_allowlists = []\<rparr>"
  let ?ep = "\<lparr>es_q = [], es_k = None, es_allowlist = None, es_projectId = None,
         es_includeRelated = False, es_boostRecent = False\<rparr>"
  let ?store = "\<lparr>bs_concepts = [sample_basic_concept ''c01''], bs_allowlists = []\<rparr>"
  let ?sp = "\<lparr>cs_q = ''*'', cs_k = None, cs_allowlist = None, cs_projectId = None\<rparr>"
  let ?args = "\<lparr>ca_q = Some ''zzz'', ca_k = None, ca_allowlist = None\<rparr>"
  note th = concept_search_wildcard_ranking [of ?ep ?efts 0 ?db ?sp ?fts ?store ?args]
  have n: "normalizeSearchQuery ''*'' = ''*''" "normalizeSearchQuery ''zzz'' = ''zzz''"
    by (simp_all add: normalizeSearchQuery_def trim_def is_space_def double_quotes_def)
  have t: "trim ''zzz'' = ''zzz''"
    by (simp add: trim_def is_space_def)
  have l: "or_default None 10 = 10" "or_default (Some 10) 10 = 10"
    by (simp_all add: or_default_def)
  have a: "\<exists>db' rs. enhanced_search ?efts 0 ?db ?ep = Inr (db', rs)
             \<and> map er_concept rs = [sample_concept ''c01'']"
    using th by (simp add: sql_limit_def l)
  have b: "\<exists>rs. concept_store_search ?fts ?store ?sp = Inr rs
             \<and> map cr_concept rs = [sample_basic_concept ''c01'']"
    using th by (simp add: sql_limit_def l n)
  have z: "concept_store_search ?fts ?store
             \<lparr>cs_q = ''zzz'', cs_k = Some 10, cs_allowlist = None, cs_projectId = None\<rparr> = Inr []"
    by (simp add: concept_store_search_def Let_def n t l)
  have s: "concept_store_search ?fts ?store
             \<lparr>cs_q = ''*'', cs_k = Some 10, cs_allowlist = None, cs_projectId = None\<rparr>
           = Inr [\<lparr>cr_concept = sample_basic_concept ''c01'', cr_score = - 1, cr_snippet = []\<rparr>]"
    by (simp add: concept_store_search_def Let_def n l sql_limit_def)
  have c: "concept_search_tool ?fts (Some ?store) ?args
           = Inr [\<lparr>cr_concept = sample_basic_concept ''c01'', cr_score = - 1, cr_snippet = []\<rparr>]"
    using th z s by (simp add: t l)
  from a b z c show ?thesis by blast
qed

text \<open>
  Claim C8 as stated fails: with one concept stored and an index that matches nothing, the
  query \<open>zzz\<close> gets the empty list from the search of either store, which does not run
  it again as \<open>*\<close>; and the tool returns the empty list for \<open>*\<close> under an
  allowlist that names no stored concept.
\<close>

theorem concept_search_wildcard_ranking_counterexample:
  "concept_store_search (\<lambda>expr. Inr (\<lambda>row. None))
     \<lparr>bs_concepts = [sample_basic_concept ''c01''], bs_allowlists = []\<rparr>
     \<lparr>cs_q = ''zzz'', cs_k = None, cs_allowlist = None, cs_projectId = None\<rparr> = Inr []
   \<and> enhanced_search (\<lambda>expr. Inr (\<lambda>row. None)) 0
        \<lparr>concepts = [sample_concept ''c01''], concept_relationships = [],
         project_allowlists = []\<rparr>
        \<lparr>es_q = ''zzz'', es_k = None, es_allowlist = None, es_projectId = None,
         es_includeRelated = False, es_boostRecent = False\<rparr>
      = Inr (\<lparr>concepts = [sample_concept ''c01''], concept_relationships = [],
              project_allowlists = []\<rparr>, [])
   \<and> concept_search_tool (\<lambda>expr. Inr (\<lambda>row. None))
        (Some \<lparr>bs_concepts = [sample_basic_concept ''c01''], bs_allowlists = []\<rparr>)
        \<lparr>ca_q = Some ''*'', ca_k = None, ca_allowlist = Some [''c02'']\<rparr> = Inr []"
proof -
  have n: "normalizeSearchQuery ''*'' = ''*''" "normalizeSearchQuery ''zzz'' = ''zzz''"
    by (simp_all add: normalizeSearchQuery_def trim_def is_space_def double_quotes_def)
  have t: "trim ''*'' = ''*''" "trim ''zzz'' = ''zzz''"
    by (simp_all add: trim_def is_space_def)
  have i: "c_id (sample_basic_concept ''c01'') = ''c01''"
    by (simp add: sample_basic_concept_def)
  have 1: "concept_store_search (\<lambda>expr. Inr (\<lambda>row. None))
     \<lparr>bs_concepts = [sample_basic_concept ''c01''], bs_allowlists = []\<rparr>
     \<lparr>cs_q = ''zzz'', cs_k = None, cs_allowlist = None, cs_projectId = None\<rparr> = Inr []"
    by (simp add: concept_store_search_def Let_def n t)
  have 2: "enhanced_search (\<lambda>expr. Inr (\<lambda>row. None)) 0
        \<lparr>concepts = [sample_concept ''c01''], concept_relationships = [],
         project_allowlists = []\<rparr>
        \<lparr>es_q = ''zzz'', es_k = None, es_allowlist = None, es_projectId = None,
         es_includeRelated = False, es_boostRecent = False\<rparr>
      = Inr (\<lparr>concepts = [sample_concept ''c01''], concept_relationships = [],
              project_allowlists = []\<rparr>, [])"
    by (simp add: enhanced_search_def Let_def)
  have 3: "concept_search_tool (\<lambda>expr. Inr (\<lambda>row. None))
        (Some \<lparr>bs_concepts = [sample_basic_concept ''c01''], bs_allowlists = []\<rparr>)
        \<lparr>ca_q = Some ''*'', ca_k = None, ca_allowlist = Some [''c02'']\<rparr> = Inr []"
    by (simp add: concept_search_tool_def concept_store_search_def Let_def n t i)
  from 1 2 3 show ?thesis by blast
qed

subsection \<open>Context Assembler: budget, selection and scores\<close>

lemma select_loop_bounds:
  assumes "selected = [] \<or> (int (length selected) \<le> topK \<and> budgetUsed \<le> budgetLimit)"
      and "budgetUsed = total_bytes selected"
  shows "select_loop candidates budgetLimit topK selected budgetUsed seen = []
         \<or> (int (length (select_loop candidates budgetLimit topK selected budgetUsed seen)) \<le> topK
            \<and> total_bytes (select_loop candidates budgetLimit topK selected budgetUsed seen)
                 \<le> budgetLimit)"
  using assms
proof (induction candidates arbitrary: selected budgetUsed seen)
  case Nil
  then show ?case by auto
next
  case (Cons c cs)
  show ?case
  proof (cases "int (length selected) \<ge> topK \<or> budgetUsed + int (ci_byteSize c) > budgetLimit")
    case True
    then have "select_loop (c # cs) budgetLimit topK selected budgetUsed seen = selected"
      by auto
    then show ?thesis using Cons.prems by auto
  next
    case False
    show ?thesis
    proof (cases "normalizeForDedupe (ci_summary c) \<in> set seen")
      case True
      then have "select_loop (c # cs) budgetLimit topK selected budgetUsed seen
                 = select_loop cs budgetLimit topK selected budgetUsed seen"
        using False by simp
      then show ?thesis using Cons.IH [OF Cons.prems] by simp
    next
      case n: False
      let ?sel = "selected @ [c]"
      let ?used = "budgetUsed + int (ci_byteSize c)"
      let ?seen = "set_add (normalizeForDedupe (ci_summary c)) seen"
      have eq: "select_loop (c # cs) budgetLimit topK selected budgetUsed seen
                 = select_loop cs budgetLimit topK ?sel ?used ?seen"
        using False n by simp
      have 1: "?sel = [] \<or> (int (length ?sel) \<le> topK \<and> ?used \<le> budgetLimit)"
        using False by auto
      have 2: "?used = total_bytes ?sel"
        using Cons.prems(2) by (simp add: total_bytes_def)
      from Cons.IH [OF 1 2] eq show ?thesis by simp
    qed
  qed
qed

lemma selectByBudget_bounds:
  "selectByBudget candidates budgetLimit topK = []
   \<or> (int (length (selectByBudget candidates budgetLimit topK)) \<le> topK
      \<and> total_bytes (selectByBudget candidates budgetLimit topK) \<le> budgetLimit)"
  unfolding selectByBudget_def
  by (rule select_loop_bounds) (simp_all add: total_bytes_def)

lemma preview_result:
  assumes "preview mfts cfts P now db store params = Inr r"
  shows "\<exists>cands. pr_injections r = selectByBudget cands (pr_budgetLimit r) (pr_topK r)
           \<and> pr_budgetUsed r = sum_list (map ci_byteSize (pr_injections r))
           \<and> pr_budgetLimit r = (case pv_budget_bytes params of None \<Rightarrow> 2048 | Some b \<Rightarrow> b)
           \<and> pr_topK r = (case pv_top_k params of None \<Rightarrow> 10 | Some n \<Rightarrow> n)"
  using assms
  by (auto simp: preview_def Let_def split: sum.splits if_splits)

text \<open>
  Claim C4, as amended. A result \<open>preview\<close> returns carries the budget given, or 2048
  when none is given, and the number given, or 10, as \<open>topK\<close>; its \<open>budgetUsed\<close> is the
  sum of the byte sizes of its injections. When the budget is not negative that sum is at
  most the budget, and when \<open>topK\<close> is not negative the number of injections is at most
  \<open>topK\<close>.
\<close>

theorem preview_respects_budget:
  assumes "preview mfts cfts P now db store params = Inr r"
  shows "pr_budgetLimit r = (case pv_budget_bytes params of None \<Rightarrow> 2048 | Some b \<Rightarrow> b)
         \<and> pr_topK r = (case pv_top_k params of None \<Rightarrow> 10 | Some n \<Rightarrow> n)
         \<and> pr_budgetUsed r = sum_list (map ci_byteSize (pr_injections r))
         \<and> (0 \<le> pr_budgetLimit r \<longrightarrow> total_bytes (pr_injections r) \<le> pr_budgetLimit r)
         \<and> (0 \<le> pr_topK r \<longrightarrow> int (length (pr_injections r)) \<le> pr_topK r)"
proof -
  from preview_result [OF assms] obtain cands where
    sel: "pr_injections r = selectByBudget cands (pr_budgetLimit r) (pr_topK r)"
    and rest: "pr_budgetUsed r = sum_list (map ci_byteSize (pr_injections r))"
      "pr_budgetLimit r = (case pv_budget_bytes params of None \<Rightarrow> 2048 | Some b \<Rightarrow> b)"
      "pr_topK r = (case pv_top_k params of None \<Rightarrow> 10 | Some n \<Rightarrow> n)"
    by blast
  from selectByBudget_bounds [of cands "pr_budgetLimit r" "pr_topK r"] sel
  have "pr_injections r = []
        \<or> (int (length (pr_injections r)) \<le> pr_topK r
           \<and> total_bytes (pr_injections r) \<le> pr_budgetLimit r)"
    by simp
  then have "(0 \<le> pr_budgetLimit r \<longrightarrow> total_bytes (pr_injections r) \<le> pr_budgetLimit r)
         \<and> (0 \<le> pr_topK r \<longrightarrow> int (length (pr_injections r)) \<le> pr_topK r)"
    by (auto simp: total_bytes_def)
  with rest show ?thesis by blast
qed

text \<open>In mode \<open>hard\<close> the concept store is not read and \<open>preview\<close> always returns.\<close>

lemma preview_hard_total:
  assumes "pv_mode params = Some Hard"
  shows "\<exists>r. preview mfts cfts P now db store params = Inr r"
proof -
  let ?mp = "\<lparr>s_q = extractSearchTerms (pv_task params), s_k = Some 50,
              s_require_path_match = False, s_tags = None, s_include_expired = False\<rparr>"
  obtain first where 1: "search mfts P now db ?mp = Inr first"
    using search_total by blast
  obtain second where 2: "search mfts P now db (?mp\<lparr>s_q := butlast (extractSearchTerms (pv_task params))\<rparr>)
      = Inr second"
    using search_total by blast
  show ?thesis
    using assms 1 2 by (simp add: preview_def Let_def)
qed

text \<open>The theorem at a call in mode \<open>hard\<close> with a budget of 200 bytes.\<close>

theorem preview_respects_budget_witness:
  "\<exists>r. preview (\<lambda>expr. Inr (\<lambda>row. Some (- 1, ''s''))) (\<lambda>expr. Inr (\<lambda>row. None)) ''p'' 1000
          [sample_memory ''m1'' ''JWT auth flow'' [''src/middleware/auth.ts''],
           sample_memory ''m2'' ''Login auth notes'' []]
          \<lparr>bs_concepts = [], bs_allowlists = []\<rparr>
          \<lparr>pv_task = ''auth'', pv_open_files = Some [''src/middleware/auth.ts''],
           pv_budget_bytes = Some 200, pv_top_k = None, pv_mode = Some Hard\<rparr> = Inr r
      \<and> pr_budgetLimit r = 200 \<and> pr_topK r = 10
      \<and> total_bytes (pr_injections r) \<le> 200
      \<and> int (length (pr_injections r)) \<le> 10"
proof -
  let ?p = "preview (\<lambda>expr. Inr (\<lambda>row. Some (- 1, ''s''))) (\<lambda>expr. Inr (\<lambda>row. None)) ''p'' 1000
          [sample_memory ''m1'' ''JWT auth flow'' [''src/middleware/auth.ts''],
           sample_memory ''m2'' ''Login auth notes'' []]
          \<lparr>bs_concepts = [], bs_allowlists = []\<rparr>
          \<lparr>pv_task = ''auth'', pv_open_files = Some [''src/middleware/auth.ts''],
           pv_budget_bytes = Some 200, pv_top_k = None, pv_mode = Some Hard\<rparr>"
  obtain r where r: "?p = Inr r"
    using preview_hard_total [of _ "(\<lambda>expr. Inr (\<lambda>row. Some (- 1, ''s'')))"] by force
  note t = preview_respects_budget [OF r]
  have a: "pr_budgetLimit r = 200" using t by (elim conjE) simp
  have b: "pr_topK r = 10" using t by (elim conjE) simp
  have c: "total_bytes (pr_injections r) \<le> 200" using t a by (elim conjE) simp
  have d: "int (length (pr_injections r)) \<le> 10" using t b by (elim conjE) simp
  from r a b c d show ?thesis by blast
qed

text \<open>
  Claim C4 as stated fails at a negative budget and a negative \<open>top_k\<close>, which the
  tool's schema (\<open>type: integer\<close>, no minimum) admits: the result is empty, and neither
  the sum 0 nor the count 0 is at most \<open>-1\<close>.
\<close>

theorem preview_respects_budget_counterexample:
  "preview (\<lambda>expr. Inr (\<lambda>row. None)) (\<lambda>expr. Inr (\<lambda>row. None)) ''p'' 1000 []
     \<lparr>bs_concepts = [], bs_allowlists = []\<rparr>
     \<lparr>pv_task = ''auth'', pv_open_files = None, pv_budget_bytes = Some (- 1),
      pv_top_k = Some (- 1), pv_mode = Some Hard\<rparr>
   = Inr \<lparr>pr_injections = [], pr_budgetUsed = 0, pr_budgetLimit = - 1, pr_topK = - 1,
          pr_stats = \<lparr>st_projectMatches = 0, st_pathMatches = 0, st_conceptMatches = 0,
                      st_totalCandidates = 0\<rparr>\<rparr>
   \<and> \<not> total_bytes [] \<le> - 1 \<and> \<not> int (length ([] :: context_injection list)) \<le> - 1"
proof -
  have "preview (\<lambda>expr. Inr (\<lambda>row. None)) (\<lambda>expr. Inr (\<lambda>row. None)) ''p'' 1000 []
     \<lparr>bs_concepts = [], bs_allowlists = []\<rparr>
     \<lparr>pv_task = ''auth'', pv_open_files = None, pv_budget_bytes = Some (- 1),
      pv_top_k = Some (- 1), pv_mode = Some Hard\<rparr>
   = Inr \<lparr>pr_injections = [], pr_budgetUsed = 0, pr_budgetLimit = - 1, pr_topK = - 1,
          pr_stats = \<lparr>st_projectMatches = 0, st_pathMatches = 0, st_conceptMatches = 0,
                      st_totalCandidates = 0\<rparr>\<rparr>"
    by code_simp
  then show ?thesis by (simp add: total_bytes_def)
qed

lemma select_loop_stop:
  assumes "budgetUsed = total_bytes selected"
      and "total_bytes (select_loop xs B K selected budgetUsed seen) + int (ci_byteSize c) > B"
  shows "select_loop (xs @ c # ys) B K selected budgetUsed seen
         = select_loop xs B K selected budgetUsed seen"
  using assms
proof (induction xs arbitrary: selected budgetUsed seen)
  case Nil
  then show ?case by simp
next
  case (Cons x xs)
  show ?case
  proof (cases "int (length selected) \<ge> K \<or> budgetUsed + int (ci_byteSize x) > B")
    case True
    then show ?thesis by auto
  next
    case False
    show ?thesis
    proof (cases "normalizeForDedupe (ci_summary x) \<in> set seen")
      case True
      then have eq: "\<And>zs. select_loop (x # zs) B K selected budgetUsed seen
                 = select_loop zs B K selected budgetUsed seen"
        using False by simp
      from Cons.prems(2) have "total_bytes (select_loop xs B K selected budgetUsed seen)
          + int (ci_byteSize c) > B"
        by (simp only: eq)
      from Cons.IH [OF Cons.prems(1) this] show ?thesis
        using eq [of xs] eq [of "xs @ c # ys"] by simp
    next
      case n: False
      let ?sel = "selected @ [x]"
      let ?used = "budgetUsed + int (ci_byteSize x)"
      let ?seen = "set_add (normalizeForDedupe (ci_summary x)) seen"
      have eq: "\<And>zs. select_loop (x # zs) B K selected budgetUsed seen
                 = select_loop zs B K ?sel ?used ?seen"
        using False n by simp
      have 1: "?used = total_bytes ?sel"
        using Cons.prems(1) by (simp add: total_bytes_def)
      from Cons.prems(2) have 2: "total_bytes (select_loop xs B K ?sel ?used ?seen)
          + int (ci_byteSize c) > B"
        by (simp only: eq)
      from Cons.IH [OF 1 2] show ?thesis
        using eq [of xs] eq [of "xs @ c # ys"] by simp
    qed
  qed
qed

lemma select_loop_skip:
  assumes "budgetUsed = total_bytes selected" and "set seen = selected_keys selected"
      and "normalizeForDedupe (ci_summary c)
             \<in> selected_keys (select_loop xs B K selected budgetUsed seen)"
      and "total_bytes (select_loop xs B K selected budgetUsed seen) + int (ci_byteSize c) \<le> B"
  shows "select_loop (xs @ c # ys) B K selected budgetUsed seen
         = select_loop (xs @ ys) B K selected budgetUsed seen"
  using assms
proof (induction xs arbitrary: selected budgetUsed seen)
  case Nil
  show ?case
  proof (cases "int (length selected) \<ge> K")
    case True
    then show ?thesis by (cases ys) simp_all
  next
    case False
    then show ?thesis using Nil by simp
  qed
next
  case (Cons x xs)
  show ?case
  proof (cases "int (length selected) \<ge> K \<or> budgetUsed + int (ci_byteSize x) > B")
    case True
    then show ?thesis by auto
  next
    case False
    show ?thesis
    proof (cases "normalizeForDedupe (ci_summary x) \<in> set seen")
      case True
      then have eq: "\<And>zs. select_loop (x # zs) B K selected budgetUsed seen
                 = select_loop zs B K selected budgetUsed seen"
        using False by simp
      have 3: "normalizeForDedupe (ci_summary c)
             \<in> selected_keys (select_loop xs B K selected budgetUsed seen)"
        using Cons.prems(3) by (simp only: eq)
      have 4: "total_bytes (select_loop xs B K selected budgetUsed seen) + int (ci_byteSize c) \<le> B"
        using Cons.prems(4) by (simp only: eq)
      from Cons.IH [OF Cons.prems(1,2) 3 4] show ?thesis
        using eq [of "xs @ ys"] eq [of "xs @ c # ys"] by simp
    next
      case n: False
      let ?sel = "selected @ [x]"
      let ?used = "budgetUsed + int (ci_byteSize x)"
      let ?seen = "set_add (normalizeForDedupe (ci_summary x)) seen"
      have eq: "\<And>zs. select_loop (x # zs) B K selected budgetUsed seen
                 = select_loop zs B K ?sel ?used ?seen"
        using False n by simp
      have 1: "?used = total_bytes ?sel"
        using Cons.prems(1) by (simp add: total_bytes_def)
      have 2: "set ?seen = selected_keys ?sel"
        using Cons.prems(2) by (auto simp: set_add_def selected_keys_def)
      have 3: "normalizeForDedupe (ci_summary c)
             \<in> selected_keys (select_loop xs B K ?sel ?used ?seen)"
        using Cons.prems(3) by (simp only: eq)
      have 4: "total_bytes (select_loop xs B K ?sel ?used ?seen) + int (ci_byteSize c) \<le> B"
        using Cons.prems(4) by (simp only: eq)
      from Cons.IH [OF 1 2 3 4] show ?thesis
        using eq [of "xs @ ys"] eq [of "xs @ c # ys"] by simp
    qed
  qed
qed

text \<open>
  Claim C5, as amended. In the selection over the candidates in order, a candidate whose
  normalized summary is already selected, and which would fit, is skipped and the pass goes
  on: the selection is the one made without it. The pass ends at the first candidate whose
  byte size does not fit in what is left of the budget: the selection is the one made from
  the candidates before it, and no later candidate is selected.
\<close>

theorem selectByBudget_skips_and_stops:
  "(normalizeForDedupe (ci_summary c) \<in> selected_keys (selectByBudget xs B K)
      \<and> total_bytes (selectByBudget xs B K) + int (ci_byteSize c) \<le> B \<longrightarrow>
    selectByBudget (xs @ c # ys) B K = selectByBudget (xs @ ys) B K)
   \<and> (total_bytes (selectByBudget xs B K) + int (ci_byteSize c) > B \<longrightarrow>
    selectByBudget (xs @ c # ys) B K = selectByBudget xs B K)"
proof -
  have skip: "select_loop (xs @ c # ys) B K [] 0 [] = select_loop (xs @ ys) B K [] 0 []"
    if "normalizeForDedupe (ci_summary c) \<in> selected_keys (select_loop xs B K [] 0 [])"
      and "total_bytes (select_loop xs B K [] 0 []) + int (ci_byteSize c) \<le> B"
    using _ _ that by (rule select_loop_skip) (simp_all add: total_bytes_def selected_keys_def)
  have stop: "select_loop (xs @ c # ys) B K [] 0 [] = select_loop xs B K [] 0 []"
    if "total_bytes (select_loop xs B K [] 0 []) + int (ci_byteSize c) > B"
    using _ that by (rule select_loop_stop) (simp add: total_bytes_def)
  show ?thesis
    unfolding selectByBudget_def using skip stop by blast
qed

text \<open>
  The theorem at three candidates and a budget of 50: a duplicate in the middle is skipped
  and the third is selected; a candidate of 100 bytes in the middle ends the pass.
\<close>

theorem selectByBudget_skips_and_stops_witness:
  "selectByBudget [sample_injection ''Auth flow'' 10, sample_injection ''auth flow!'' 10,
                   sample_injection ''Cache'' 10] 50 10
     = [sample_injection ''Auth flow'' 10, sample_injection ''Cache'' 10]
   \<and> selectByBudget [sample_injection ''Auth flow'' 10, sample_injection ''Big'' 100,
                     sample_injection ''Cache'' 10] 50 10
     = [sample_injection ''Auth flow'' 10]"
proof -
  let ?a = "sample_injection ''Auth flow'' 10"
  let ?a' = "sample_injection ''auth flow!'' 10"
  let ?big = "sample_injection ''Big'' 100"
  let ?c = "sample_injection ''Cache'' 10"
  have base: "selectByBudget [?a] 50 10 = [?a]" "selectByBudget [?a, ?c] 50 10 = [?a, ?c]"
    by code_simp+
  have k: "normalizeForDedupe (ci_summary ?a') \<in> selected_keys [?a]"
    by code_simp
  have f1: "total_bytes [?a] + int (ci_byteSize ?a') \<le> 50"
    by (simp add: total_bytes_def sample_injection_def)
  have f2: "total_bytes [?a] + int (ci_byteSize ?big) > 50"
    by (simp add: total_bytes_def sample_injection_def)
  from selectByBudget_skips_and_stops [of ?a' "[?a]" 50 10 "[?c]"] k f1
  have 1: "selectByBudget [?a, ?a', ?c] 50 10 = [?a, ?c]"
    by (simp add: base)
  from selectByBudget_skips_and_stops [of ?big "[?a]" 50 10 "[?c]"] f2
  have 2: "selectByBudget [?a, ?big, ?c] 50 10 = [?a]"
    by (simp add: base)
  from 1 2 show ?thesis by blast
qed

text \<open>
  Claim C5 as stated fails: after a candidate of 100 bytes is rejected for a budget of 50,
  the later candidate of 10 bytes, which fits, is not selected.
\<close>

theorem selectByBudget_skips_and_stops_counterexample:
  "selectByBudget [sample_injection ''Big'' 100, sample_injection ''Cache'' 10] 50 10 = []
   \<and> total_bytes [] + int (ci_byteSize (sample_injection ''Cache'' 10)) \<le> 50"
  by code_simp

text \<open>
  Claim C6 at an input where the code departs from it. The task \<open>auth\<close> is one term and
  matches the tag \<open>auth\<close> of two memories that differ in their summaries and in their
  paths only; the open file \<open>src/middleware/auth.ts\<close> is the stored path of the first,
  and the second has no path. The prefixes inferred from the open file all start with
  \<open>/\<close>, the stored path does not, so no prefix matches it: the path score is 0 and
  the two memories get the same score.
\<close>

theorem scoreMemories_relative_paths:
  "inferPathPrefixes [''src/middleware/auth.ts'']
     = [''/src'', ''/src/*'', ''/src/middleware'', ''/src/middleware/*'',
        ''/src/middleware/auth.ts'']
   \<and> pathMatchStrength [''src/middleware/auth.ts'']
         (inferPathPrefixes [''src/middleware/auth.ts'']) = 0
   \<and> map ci_score
         (scoreMemories ''p'' 1000
            [\<lparr>sr_memory = rowToMemory (sample_memory ''m1'' ''JWT auth flow''
                                          [''src/middleware/auth.ts'']),
              sr_score = 1, sr_snippet = ''s''\<rparr>,
             \<lparr>sr_memory = rowToMemory (sample_memory ''m2'' ''Login auth notes'' []),
              sr_score = 1, sr_snippet = ''s''\<rparr>]
            (inferPathPrefixes [''src/middleware/auth.ts'']) ''auth'')
       = [43 / 5, 43 / 5]"
  by code_simp

text \<open>
  Where the path score of a memory is positive, its score exceeds that of a memory with
  path score 0 that agrees with it in project, tags, importance, time of creation and
  full-text score.
\<close>

lemma memory_score_path_dominance:
  assumes "pathMatchStrength (m_paths (sr_memory a)) prefixes > 0"
      and "pathMatchStrength (m_paths (sr_memory b)) prefixes = 0"
      and "m_project_id (sr_memory a) = m_project_id (sr_memory b)"
      and "m_tags (sr_memory a) = m_tags (sr_memory b)"
      and "m_importance (sr_memory a) = m_importance (sr_memory b)"
      and "m_created_at (sr_memory a) = m_created_at (sr_memory b)"
      and "sr_score a = sr_score b"
  shows "memory_score P now prefixes task a > memory_score P now prefixes task b"
  using assms by (simp add: memory_score_def Let_def)

end
